theory Spec2Isabelle
  imports Main "HOL-Library.Sublist"
begin

section \<open>Python strings\<close>

text \<open>
  A Python \<open>str\<close> is modelled as a \<open>string\<close> (a list of 8-bit characters) and read as
  ASCII text: the character classes below are Python's whitespace, decimal digit, letter and word
  character classes restricted to code points below 128, and a character above 127
  belongs to none of them.
\<close>

datatype py_error = ValueError | AttributeError | IndexError | TypeError | OverflowError | OtherError

definition code :: "char \<Rightarrow> nat" where
  "code c = of_char c"

definition is_space :: "char \<Rightarrow> bool" where
  "is_space c = ((9 \<le> code c \<and> code c \<le> 13) \<or> (28 \<le> code c \<and> code c \<le> 32))"

definition is_digit :: "char \<Rightarrow> bool" where
  "is_digit c = (48 \<le> code c \<and> code c \<le> 57)"

definition is_upper :: "char \<Rightarrow> bool" where
  "is_upper c = (65 \<le> code c \<and> code c \<le> 90)"

definition is_lower :: "char \<Rightarrow> bool" where
  "is_lower c = (97 \<le> code c \<and> code c \<le> 122)"

definition is_alpha :: "char \<Rightarrow> bool" where
  "is_alpha c = (is_upper c \<or> is_lower c)"

definition is_word :: "char \<Rightarrow> bool" where
  "is_word c = (is_alpha c \<or> is_digit c \<or> c = CHR ''_'')"

definition upper_char :: "char \<Rightarrow> char" where
  "upper_char c = (if is_lower c then char_of (code c - 32) else c)"

definition lower_char :: "char \<Rightarrow> char" where
  "lower_char c = (if is_upper c then char_of (code c + 32) else c)"

definition upper :: "string \<Rightarrow> string" where
  "upper s = map upper_char s"

definition lower :: "string \<Rightarrow> string" where
  "lower s = map lower_char s"

text \<open>\<open>s.strip()\<close>: whitespace removed at both ends.\<close>

definition strip :: "string \<Rightarrow> string" where
  "strip s = rev (dropWhile is_space (rev (dropWhile is_space s)))"

text \<open>\<open>sub in s\<close> for strings.\<close>

fun contains :: "string \<Rightarrow> string \<Rightarrow> bool" where
  "contains sub [] = (sub = [])"
| "contains sub (x # xs) = (prefix sub (x # xs) \<or> contains sub xs)"

text \<open>Truthiness of an optional string: \<open>None\<close> and \<open>''\<close> are falsy.\<close>

definition truthy :: "string option \<Rightarrow> bool" where
  "truthy v = (case v of None \<Rightarrow> False | Some s \<Rightarrow> s \<noteq> [])"

text \<open>How an f-string renders an optional string: \<open>None\<close> prints as the word None.\<close>

definition fmt :: "string option \<Rightarrow> string" where
  "fmt v = (case v of None \<Rightarrow> ''None'' | Some s \<Rightarrow> s)"

section \<open>Python dictionaries\<close>

text \<open>
  A dictionary of strings is an association list with distinct keys, in insertion order:
  \<open>d.get(k)\<close> is \<open>dict_get\<close>, \<open>d[k] = v\<close> is \<open>dict_set\<close> (an existing key keeps its
  place, a new one goes to the end) and \<open>d.update(e)\<close>, also \<open>{**d, **e}\<close>, is
  \<open>dict_update\<close>.
\<close>

type_synonym dict = "(string \<times> string) list"

definition dict_get :: "dict \<Rightarrow> string \<Rightarrow> string option" where
  "dict_get d k = map_of d k"

fun dict_set :: "string \<Rightarrow> string \<Rightarrow> dict \<Rightarrow> dict" where
  "dict_set k v [] = [(k, v)]"
| "dict_set k v ((k', v') # d) = (if k' = k then (k, v) # d else (k', v') # dict_set k v d)"

definition dict_update :: "dict \<Rightarrow> dict \<Rightarrow> dict" where
  "dict_update d e = foldl (\<lambda>acc (k, v). dict_set k v acc) d e"

section \<open>The URL builder (Enrichment.py, build_truepeoplesearch_url)\<close>

text \<open>
  \<open>urllib.parse.urlencode\<close> quotes every key and value with \<open>quote_plus\<close> and an
  empty \<open>safe\<close> set: letters, digits and \<open>_.-~\<close> stay, a space becomes \<open>+\<close>, every
  other byte becomes \<open>%XX\<close> in upper-case hexadecimal.
\<close>

definition is_unreserved :: "char \<Rightarrow> bool" where
  "is_unreserved c = (is_alpha c \<or> is_digit c \<or> c \<in> set ''_.-~'')"

definition hex_digit :: "nat \<Rightarrow> char" where
  "hex_digit n = ''0123456789ABCDEF'' ! (n mod 16)"

definition quote_plus_char :: "char \<Rightarrow> string" where
  "quote_plus_char c =
     (if is_unreserved c then [c]
      else if c = CHR '' '' then ''+''
      else [CHR ''%'', hex_digit (code c div 16), hex_digit (code c)])"

definition quote_plus :: "string \<Rightarrow> string" where
  "quote_plus s = concat (map quote_plus_char s)"

definition urlencode :: "(string \<times> string) list \<Rightarrow> string" where
  "urlencode params =
     concat (map (\<lambda>(k, v). quote_plus k @ ''='' @ quote_plus v) (take 1 params)) @
     concat (map (\<lambda>(k, v). ''&'' @ quote_plus k @ ''='' @ quote_plus v) (drop 1 params))"

definition base_url :: string where
  "base_url = ''https://www.truepeoplesearch.com/resultaddress''"

definition build_truepeoplesearch_url ::
  "string option \<Rightarrow> string option \<Rightarrow> string option \<Rightarrow> string option \<Rightarrow> py_error + string" where
  "build_truepeoplesearch_url address city state zip_code =
     (if \<not> (truthy address \<and> truthy city \<and> truthy state) then Inl ValueError
      else
        let street_address = strip (fmt address);
            city_state_zip = strip (fmt city @ '', '' @ fmt state @ '' '' @ fmt zip_code);
            params = [(''streetaddress'', street_address), (''citystatezip'', city_state_zip)]
        in Inr (base_url @ ''?'' @ urlencode params))"

section \<open>Python regular expressions\<close>

text \<open>
  The patterns of the source are terms of \<open>regex\<close>, and \<open>ms\<close> is a backtracking
  matcher with the priorities of Python's \<open>re\<close>: it returns every way the pattern can
  match at the cursor, the preferred one first. A matcher state is the character before
  the cursor (None at the start of the text) and the text after it; the captures are an
  association list, the latest binding of a capture group first. A greedy star prefers one more
  iteration, a lazy one prefers to stop; an iteration that consumes nothing is not
  repeated. The flag IGNORECASE is written into the character classes of a pattern.
\<close>

type_synonym caps = "(nat \<times> string) list"
type_synonym mstate = "char option \<times> string"

datatype regex =
    Chr "char \<Rightarrow> bool"
  | Eps
  | Seq regex regex
  | Alt regex regex
  | Star regex
  | LazyStar regex
  | Grp nat regex
  | Bol
  | Eol
  | WordB
  | Look regex

definition newline :: char where
  "newline = CHR 0x0A"

definition word_before :: "mstate \<Rightarrow> bool" where
  "word_before st = (case fst st of None \<Rightarrow> False | Some x \<Rightarrow> is_word x)"

definition word_after :: "mstate \<Rightarrow> bool" where
  "word_after st = (case snd st of [] \<Rightarrow> False | x # xs \<Rightarrow> is_word x)"

primrec star_iter ::
  "bool \<Rightarrow> (mstate \<Rightarrow> caps \<Rightarrow> (mstate \<times> caps) list) \<Rightarrow> nat \<Rightarrow> mstate \<Rightarrow> caps
     \<Rightarrow> (mstate \<times> caps) list" where
  "star_iter greedy f 0 st c = [(st, c)]"
| "star_iter greedy f (Suc n) st c =
     (let more = concat (map (\<lambda>(st', c').
                   if length (snd st') < length (snd st) then star_iter greedy f n st' c' else [])
                 (f st c))
      in if greedy then more @ [(st, c)] else (st, c) # more)"

primrec ms :: "regex \<Rightarrow> mstate \<Rightarrow> caps \<Rightarrow> (mstate \<times> caps) list" where
  "ms (Chr P) st c =
     (case snd st of [] \<Rightarrow> [] | x # xs \<Rightarrow> if P x then [((Some x, xs), c)] else [])"
| "ms Eps st c = [(st, c)]"
| "ms (Seq a b) st c = concat (map (\<lambda>(st', c'). ms b st' c') (ms a st c))"
| "ms (Alt a b) st c = ms a st c @ ms b st c"
| "ms (Star r) st c = star_iter True (ms r) (length (snd st)) st c"
| "ms (LazyStar r) st c = star_iter False (ms r) (length (snd st)) st c"
| "ms (Grp k r) st c =
     map (\<lambda>(st', c'). (st', (k, take (length (snd st) - length (snd st')) (snd st)) # c'))
       (ms r st c)"
| "ms Bol st c = (if fst st = None then [(st, c)] else [])"
| "ms Eol st c = (if snd st = [] \<or> snd st = [newline] then [(st, c)] else [])"
| "ms WordB st c = (if word_before st \<noteq> word_after st then [(st, c)] else [])"
| "ms (Look r) st c = (if ms r st c = [] then [] else [(st, c)])"

text \<open>Derived forms: \<open>r+\<close>, \<open>r+?\<close>, \<open>r?\<close>, \<open>r{n}\<close>, a literal character, a sequence.\<close>

definition r_plus :: "regex \<Rightarrow> regex" where
  "r_plus r = Seq r (Star r)"

definition r_lazy_plus :: "regex \<Rightarrow> regex" where
  "r_lazy_plus r = Seq r (LazyStar r)"

definition r_opt :: "regex \<Rightarrow> regex" where
  "r_opt r = Alt r Eps"

primrec r_rep :: "nat \<Rightarrow> regex \<Rightarrow> regex" where
  "r_rep 0 r = Eps"
| "r_rep (Suc n) r = Seq r (r_rep n r)"

definition r_lit :: "char \<Rightarrow> regex" where
  "r_lit ch = Chr (\<lambda>c. c = ch)"

definition r_seq :: "regex list \<Rightarrow> regex" where
  "r_seq rs = foldr Seq rs Eps"

text \<open>
  \<open>re.match\<close> tries the pattern at the start of the text; \<open>re.search\<close> tries every
  start from left to right. Both give the captures of the first match (\<open>group_of\<close> reads
  them; a capture group that took no part is None). \<open>re_sub_del\<close> is \<open>re.sub(pattern, '', s)\<close>:
  every non-overlapping match is deleted, from left to right.
\<close>

definition first_caps :: "(mstate \<times> caps) list \<Rightarrow> caps option" where
  "first_caps rs = (case rs of [] \<Rightarrow> None | (st, c) # _ \<Rightarrow> Some c)"

definition re_match :: "regex \<Rightarrow> string \<Rightarrow> caps option" where
  "re_match r s = first_caps (ms r (None, s) [])"

fun re_search_from :: "regex \<Rightarrow> char option \<Rightarrow> string \<Rightarrow> caps option" where
  "re_search_from r p [] = first_caps (ms r (p, []) [])"
| "re_search_from r p (x # xs) =
     (case first_caps (ms r (p, x # xs) []) of
        Some c \<Rightarrow> Some c
      | None \<Rightarrow> re_search_from r (Some x) xs)"

definition re_search :: "regex \<Rightarrow> string \<Rightarrow> caps option" where
  "re_search r s = re_search_from r None s"

definition group_of :: "caps \<Rightarrow> nat \<Rightarrow> string option" where
  "group_of c k = map_of c k"

function re_sub_del_from :: "regex \<Rightarrow> char option \<Rightarrow> string \<Rightarrow> string" where
  "re_sub_del_from r p [] = []"
| "re_sub_del_from r p (x # xs) =
     (case ms r (p, x # xs) [] of
        [] \<Rightarrow> x # re_sub_del_from r (Some x) xs
      | (st', c) # _ \<Rightarrow>
          if length (snd st') < length (x # xs) then re_sub_del_from r (fst st') (snd st')
          else x # re_sub_del_from r (Some x) xs)"
  by pat_completeness auto
termination
  by (relation "measure (\<lambda>(r, p, s). length s)") auto

definition re_sub_del :: "regex \<Rightarrow> string \<Rightarrow> string" where
  "re_sub_del r s = re_sub_del_from r None s"

text \<open>
  For reasoning about matches: the groups a pattern can bind, the character before the
  cursor once a piece of text has been consumed, and what it means for the matcher to
  move from one state to another.
\<close>

primrec grps :: "regex \<Rightarrow> nat set" where
  "grps (Chr P) = {}"
| "grps Eps = {}"
| "grps (Seq a b) = grps a \<union> grps b"
| "grps (Alt a b) = grps a \<union> grps b"
| "grps (Star r) = grps r"
| "grps (LazyStar r) = grps r"
| "grps (Grp k r) = insert k (grps r)"
| "grps Bol = {}"
| "grps Eol = {}"
| "grps WordB = {}"
| "grps (Look r) = {}"

definition last_char :: "char option \<Rightarrow> string \<Rightarrow> char option" where
  "last_char p pre = (if pre = [] then p else Some (last pre))"

definition consumes :: "mstate \<Rightarrow> mstate \<Rightarrow> bool" where
  "consumes st st' = (\<exists>pre. snd st = pre @ snd st' \<and> fst st' = last_char (fst st) pre)"

definition steps :: "regex \<Rightarrow> char option \<Rightarrow> caps \<Rightarrow> string \<Rightarrow> string \<Rightarrow> caps \<Rightarrow> bool" where
  "steps r p c pre rest c' = (((last_char p pre, rest), c') \<in> set (ms r (p, pre @ rest) c))"

definition extends :: "nat set \<Rightarrow> caps \<Rightarrow> caps \<Rightarrow> bool" where
  "extends G c c' = (\<exists>d. c' = d @ c \<and> fst ` set d \<subseteq> G)"

section \<open>The address parser (Enrichment.py, parse_full_address)\<close>

text \<open>
  \<open>s.split()\<close> cuts a string at runs of whitespace and drops the empty pieces;
  \<open>s.split(',')\<close> cuts at every comma and keeps them; \<open>' '.join(parts)\<close> glues the
  pieces together again.
\<close>

fun split_ws :: "string \<Rightarrow> string list" where
  "split_ws [] = []"
| "split_ws (x # xs) =
     (if is_space x then split_ws xs
      else (case xs of
              [] \<Rightarrow> [[x]]
            | y # ys \<Rightarrow>
                if is_space y then [x] # split_ws xs
                else (case split_ws xs of [] \<Rightarrow> [[x]] | p # ps \<Rightarrow> (x # p) # ps)))"

fun split_on :: "char \<Rightarrow> string \<Rightarrow> string list" where
  "split_on d [] = [[]]"
| "split_on d (x # xs) =
     (if x = d then [] # split_on d xs
      else (case split_on d xs of [] \<Rightarrow> [[x]] | p # ps \<Rightarrow> (x # p) # ps))"

fun join :: "string \<Rightarrow> string list \<Rightarrow> string" where
  "join sep [] = []"
| "join sep [p] = p"
| "join sep (p # q # ps) = p @ sep @ join sep (q # ps)"

definition isalpha :: "string \<Rightarrow> bool" where
  "isalpha s = (s \<noteq> [] \<and> list_all is_alpha s)"

text \<open>Indexing a list raises IndexError out of range; \<open>.strip()\<close> on None raises AttributeError.\<close>

definition py_nth :: "'a list \<Rightarrow> nat \<Rightarrow> py_error + 'a" where
  "py_nth xs i = (if i < length xs then Inr (xs ! i) else Inl IndexError)"

definition strip_group :: "caps \<Rightarrow> nat \<Rightarrow> py_error + string" where
  "strip_group c k = (case group_of c k of None \<Rightarrow> Inl AttributeError | Some g \<Rightarrow> Inr (strip g))"

definition bind :: "py_error + 'a \<Rightarrow> ('a \<Rightarrow> py_error + 'b) \<Rightarrow> py_error + 'b" where
  "bind m f = (case m of Inl e \<Rightarrow> Inl e | Inr x \<Rightarrow> f x)"

record parsed_address =
  pa_street :: "string option"
  pa_city :: "string option"
  pa_state :: "string option"
  pa_zip_code :: "string option"

definition no_address :: parsed_address where
  "no_address = \<lparr>pa_street = None, pa_city = None, pa_state = None, pa_zip_code = None\<rparr>"

text \<open>The character classes of the patterns. Under IGNORECASE both letter ranges are all letters.\<close>

definition dot :: regex where
  "dot = Chr (\<lambda>c. c \<noteq> newline)"

definition not_comma :: regex where
  "not_comma = Chr (\<lambda>c. c \<noteq> CHR '','')"

definition space :: regex where
  "space = Chr is_space"

definition digit :: regex where
  "digit = Chr is_digit"

definition letter :: regex where
  "letter = Chr is_alpha"

definition upper_letter :: regex where
  "upper_letter = Chr is_upper"

text \<open>The ZIP part shared by the patterns: five digits, optionally a hyphen and four more.\<close>

definition zip_re :: regex where
  "zip_re = Seq (r_rep 5 digit) (r_opt (Seq (r_lit CHR ''-'') (r_rep 4 digit)))"

text \<open>A capitalised word and more of them, under IGNORECASE: two letters or more, then
  groups of whitespace and two letters or more.\<close>

definition words_re :: regex where
  "words_re = r_seq [letter, r_plus letter, Star (r_seq [r_plus space, letter, r_plus letter])]"

definition pattern1 :: regex where
  "pattern1 = r_seq [Bol, Grp 1 (r_lazy_plus dot), r_lit CHR '','', Star space,
                     Grp 2 (r_plus not_comma), r_lit CHR '','', Star space,
                     Grp 3 (r_rep 2 letter),
                     r_opt (r_seq [r_plus space, Grp 4 zip_re]), Eol]"

definition pattern2 :: regex where
  "pattern2 = r_seq [Bol, Grp 1 (r_lazy_plus dot), r_plus space, Grp 2 words_re, r_plus space,
                     Grp 3 (r_rep 2 letter), r_plus space, Grp 4 zip_re, Eol]"

definition pattern3 :: regex where
  "pattern3 = r_seq [Bol, Grp 1 (r_lazy_plus dot), r_lit CHR '','', Star space,
                     Grp 2 (r_plus not_comma), r_lit CHR '','', Star space,
                     Grp 3 words_re, r_plus space, Grp 4 zip_re, Eol]"

definition zip_pattern :: regex where
  "zip_pattern = r_seq [WordB, Grp 1 zip_re, Star space, Eol]"

definition state_pattern :: regex where
  "state_pattern = r_seq [WordB, Grp 1 (r_rep 2 upper_letter), r_plus space, Look (r_rep 5 digit)]"

definition state_map :: "(string \<times> string) list" where
  "state_map = [
    (''alabama'', ''AL''), (''alaska'', ''AK''), (''arizona'', ''AZ''), (''arkansas'', ''AR''),
    (''california'', ''CA''), (''colorado'', ''CO''), (''connecticut'', ''CT''),
    (''delaware'', ''DE''), (''florida'', ''FL''), (''georgia'', ''GA''), (''hawaii'', ''HI''),
    (''idaho'', ''ID''), (''illinois'', ''IL''), (''indiana'', ''IN''), (''iowa'', ''IA''),
    (''kansas'', ''KS''), (''kentucky'', ''KY''), (''louisiana'', ''LA''), (''maine'', ''ME''),
    (''maryland'', ''MD''), (''massachusetts'', ''MA''), (''michigan'', ''MI''),
    (''minnesota'', ''MN''), (''mississippi'', ''MS''), (''missouri'', ''MO''),
    (''montana'', ''MT''), (''nebraska'', ''NE''), (''nevada'', ''NV''),
    (''new hampshire'', ''NH''), (''new jersey'', ''NJ''), (''new mexico'', ''NM''),
    (''new york'', ''NY''), (''north carolina'', ''NC''), (''north dakota'', ''ND''),
    (''ohio'', ''OH''), (''oklahoma'', ''OK''), (''oregon'', ''OR''), (''pennsylvania'', ''PA''),
    (''rhode island'', ''RI''), (''south carolina'', ''SC''), (''south dakota'', ''SD''),
    (''tennessee'', ''TN''), (''texas'', ''TX''), (''utah'', ''UT''), (''vermont'', ''VT''),
    (''virginia'', ''VA''), (''washington'', ''WA''), (''west virginia'', ''WV''),
    (''wisconsin'', ''WI''), (''wyoming'', ''WY''), (''district of columbia'', ''DC'')]"

definition convert_state_name_to_abbr :: "string \<Rightarrow> string option" where
  "convert_state_name_to_abbr state_name = map_of state_map (lower state_name)"

text \<open>
  The loop of the second pattern's branch: the index of the last two-letter alphabetic
  piece, looking from the last piece down to the piece at index 1.
\<close>

definition find_state_idx :: "string list \<Rightarrow> nat option" where
  "find_state_idx parts =
     map_option fst
       (find (\<lambda>(i, p). length p = 2 \<and> isalpha p) (rev (drop 1 (enumerate 0 parts))))"

definition pattern1_result :: "caps \<Rightarrow> py_error + parsed_address" where
  "pattern1_result m =
     bind (strip_group m 1) (\<lambda>st.
     bind (strip_group m 2) (\<lambda>ci.
     bind (strip_group m 3) (\<lambda>sta.
     bind (if truthy (group_of m 4) then strip_group m 4 else Inr []) (\<lambda>z.
       Inr \<lparr>pa_street = Some st, pa_city = Some ci, pa_state = Some (upper sta),
            pa_zip_code = (if truthy (group_of m 4) then Some z else None)\<rparr>))))"

definition pattern2_result :: "string \<Rightarrow> (py_error + parsed_address) option" where
  "pattern2_result address =
     (let parts = split_ws address in
      if length parts \<ge> 4 then
        (case find_state_idx parts of
           None \<Rightarrow> None
         | Some state_idx \<Rightarrow>
             if state_idx > 1 then
               let city_start = state_idx - 1 in
               Some (bind (py_nth parts city_start) (\<lambda>ci.
                     bind (py_nth parts state_idx) (\<lambda>sta.
                     bind (if state_idx + 1 < length parts then py_nth parts (state_idx + 1)
                           else Inr []) (\<lambda>z.
                       Inr \<lparr>pa_street = Some (strip (join '' '' (take city_start parts))),
                            pa_city = Some (strip ci),
                            pa_state = Some (upper (strip sta)),
                            pa_zip_code = (if state_idx + 1 < length parts then Some (strip z)
                                           else None)\<rparr>))))
             else None)
      else None)"

definition pattern3_result :: "caps \<Rightarrow> py_error + parsed_address" where
  "pattern3_result m =
     bind (strip_group m 1) (\<lambda>st.
     bind (strip_group m 2) (\<lambda>ci.
     bind (strip_group m 3) (\<lambda>state_name.
     bind (if truthy (group_of m 4) then strip_group m 4 else Inr []) (\<lambda>z.
       Inr \<lparr>pa_street = Some st, pa_city = Some ci,
            pa_state = Some (case convert_state_name_to_abbr state_name of
                               Some state_abbr \<Rightarrow> if state_abbr \<noteq> [] then state_abbr
                                                   else upper state_name
                             | None \<Rightarrow> upper state_name),
            pa_zip_code = (if truthy (group_of m 4) then Some z else None)\<rparr>))))"

text \<open>
  When no pattern matches: a ZIP at the end of the text, a two-letter upper-case state
  code before five digits, then street and city from what is left, cut at the commas.
\<close>

definition residual_result :: "string \<Rightarrow> py_error + parsed_address" where
  "residual_result address0 =
     bind (case re_search zip_pattern address0 of
             None \<Rightarrow> Inr (None, address0)
           | Some zm \<Rightarrow> bind (strip_group zm 1) (\<lambda>z.
               Inr (Some z, strip (re_sub_del zip_pattern address0)))) (\<lambda>(zip, address1).
     bind (case re_search state_pattern address1 of
             None \<Rightarrow> Inr (None, address1)
           | Some sm \<Rightarrow> bind (case group_of sm 1 of None \<Rightarrow> Inl AttributeError
                                | Some g \<Rightarrow> Inr (upper g)) (\<lambda>sta.
               Inr (Some sta, strip (re_sub_del state_pattern address1)))) (\<lambda>(sta, address2).
     if CHR '','' \<in> set address2 then
       (let parts = map strip (split_on CHR '','' address2) in
        if length parts \<ge> 2 then
          bind (py_nth parts 0) (\<lambda>p0.
          bind (py_nth parts (length parts - 1)) (\<lambda>pl.
            Inr \<lparr>pa_street = Some (strip p0), pa_city = Some (strip pl), pa_state = sta,
                 pa_zip_code = zip\<rparr>))
        else Inr \<lparr>pa_street = Some address2, pa_city = None, pa_state = sta,
                  pa_zip_code = zip\<rparr>)
     else Inr \<lparr>pa_street = Some address2, pa_city = None, pa_state = sta, pa_zip_code = zip\<rparr>))"

definition parse_full_address :: "string option \<Rightarrow> py_error + parsed_address" where
  "parse_full_address address_string =
     (case address_string of
        None \<Rightarrow> Inr no_address
      | Some a \<Rightarrow>
          if a = [] \<or> strip a = [] then Inr no_address
          else
            let address = strip a in
            (case re_match pattern1 address of
               Some m \<Rightarrow> pattern1_result m
             | None \<Rightarrow>
                 (case (if re_match pattern2 address = None then None
                        else pattern2_result address) of
                    Some r \<Rightarrow> r
                  | None \<Rightarrow>
                      (case re_match pattern3 address of
                         Some m \<Rightarrow> pattern3_result m
                       | None \<Rightarrow> residual_result address))))"

text \<open>The texts the ZIP part of the patterns matches.\<close>

definition zip_text :: "string \<Rightarrow> bool" where
  "zip_text g =
     (length g \<ge> 5 \<and> list_all is_digit (take 5 g) \<and>
      (drop 5 g = [] \<or>
       (take 1 (drop 5 g) = ''-'' \<and> length (drop 6 g) = 4 \<and> list_all is_digit (drop 6 g))))"

text \<open>A field of the result that is either absent or a non-empty string.\<close>

definition none_or_nonempty :: "string option \<Rightarrow> bool" where
  "none_or_nonempty v = (case v of None \<Rightarrow> True | Some x \<Rightarrow> x \<noteq> [])"

section \<open>ZIP normalisation (FSBO.py, normalize_zip)\<close>




section \<open>The field extractor (Enrichment.py, TruePeopleSearchParser)\<close>

text \<open>
  The HTML parsers (BeautifulSoup, lxml) are outside the repository. A parsed document is
  modelled by what the extractor reads from it: the text of the page, whether the
  property card is there, the fields \<open>extract_resident_data\<close> finds for a target
  address, and for each property field what each of the four lookups gives:
  \<^item> \<open>css_text\<close>: the text of the element of the primary CSS selector, None when there
    is none or the selector raises;
  \<^item> \<open>xpath_text\<close>: what \<open>extract_by_xpath\<close> returns;
  \<^item> \<open>label_texts\<close>: the texts of the bold elements found next to the label, in the
    order of the search, up to where the search ends or raises;
  \<^item> \<open>alt_texts\<close>: for each alternative selector in turn, the texts of its elements
    near the label, and whether the selector raised after them.
\<close>

record field_obs =
  css_text :: "string option"
  xpath_text :: "string option"
  label_texts :: "string list"
  alt_texts :: "(string list \<times> bool) list"

record document =
  page_text :: string
  has_property_card :: bool
  resident_fields :: "string \<Rightarrow> dict"
  field_lookup :: "string \<Rightarrow> field_obs"

text \<open>The test each lookup makes on its text before it logs a find.\<close>

definition found_text :: "string \<Rightarrow> bool" where
  "found_text v = (v \<noteq> [] \<and> lower v \<notin> set [''n/a'', ''na'', ''not available'', ''''])"

text \<open>
  The loop of the label search and of one alternative selector: every text is assigned
  to the value, and the loop stops at the first one that passes the test.
\<close>

fun scan_texts :: "string option \<Rightarrow> string list \<Rightarrow> string option" where
  "scan_texts v [] = v"
| "scan_texts v (t # ts) = (if found_text t then Some t else scan_texts (Some t) ts)"

text \<open>
  The loop over the alternative selectors: after a selector that did not raise, the loop
  stops as soon as the value is truthy; after one that raised, it goes on.
\<close>

fun alt_search :: "string option \<Rightarrow> (string list \<times> bool) list \<Rightarrow> string option" where
  "alt_search v [] = v"
| "alt_search v ((ts, raised) # rest) =
     (let v' = scan_texts v ts in
      if raised then alt_search v' rest
      else if truthy v' then v'
      else alt_search v' rest)"

text \<open>The four lookups in the order of the source; each runs only while the value is falsy.\<close>

definition lookup_value :: "field_obs \<Rightarrow> string option" where
  "lookup_value obs =
     (let value1 = css_text obs;
          value2 = (if \<not> truthy value1 then xpath_text obs else value1);
          value3 = (if \<not> truthy value2 then scan_texts value2 (label_texts obs) else value2);
          value4 = (if \<not> truthy value3 then alt_search value3 (alt_texts obs) else value3)
      in value4)"

text \<open>The year pattern: a word boundary, 19 or 20, two digits, a word boundary.\<close>

definition year_re :: regex where
  "year_re = Grp 0 (r_seq [WordB,
                Grp 1 (Alt (r_seq [r_lit CHR ''1'', r_lit CHR ''9''])
                           (r_seq [r_lit CHR ''2'', r_lit CHR ''0''])),
                r_rep 2 digit, WordB])"

definition price_fields :: "string list" where
  "price_fields = [''estimated_value'', ''estimated_equity'', ''last_sale_amount'']"

text \<open>Cleaning and storing a value: what the field gets, None when nothing is stored.\<close>

definition clean_value :: "string \<Rightarrow> string option \<Rightarrow> string option" where
  "clean_value field_name value =
     (case value of
        None \<Rightarrow> None
      | Some v0 \<Rightarrow>
          if v0 = [] then None
          else
            let v = strip v0 in
            if lower v \<in> set [''n/a'', ''na'', ''not available'', '''', ''none''] then None
            else if field_name \<in> set price_fields then
              (let cleaned = filter (\<lambda>c. is_digit c \<or> c = CHR ''.'') v in
               if cleaned \<noteq> [] \<and> list_ex is_digit cleaned then Some cleaned else None)
            else if field_name = ''year_built_enriched'' then
              (case re_search year_re v of
                 None \<Rightarrow> None
               | Some m \<Rightarrow> group_of m 0)
            else Some v)"

definition extract_field :: "string \<Rightarrow> field_obs \<Rightarrow> string option" where
  "extract_field field_name obs = clean_value field_name (lookup_value obs)"

definition property_fields :: "string list" where
  "property_fields = [''estimated_value'', ''estimated_equity'', ''last_sale_date'',
     ''last_sale_amount'', ''year_built_enriched'', ''ownership_type'', ''occupancy_type'',
     ''property_class'', ''land_use'']"

definition extract_property_data :: "document \<Rightarrow> dict" where
  "extract_property_data doc =
     (if \<not> has_property_card doc \<and> \<not> contains ''estimated value'' (lower (page_text doc))
      then []
      else foldl (\<lambda>data field_name.
                    case extract_field field_name (field_lookup doc field_name) of
                      None \<Rightarrow> data
                    | Some v \<Rightarrow> dict_set field_name v data)
             [] property_fields)"

text \<open>
  \<open>extract_all\<close>: nothing for an empty page, for a page whose text holds a blocking
  word and for a page that says there are no results; otherwise the resident fields,
  updated with the property fields. \<open>parse_html\<close> stands for the HTML parser.
\<close>

definition block_words :: "string list" where
  "block_words = [''captcha'', ''robot'', ''access denied'']"

definition no_result_marks :: "string list" where
  "no_result_marks = [''no results found'', ''we found 0'']"

definition extract_all :: "(string \<Rightarrow> document) \<Rightarrow> string \<Rightarrow> dict \<Rightarrow> dict" where
  "extract_all parse_html html_content lead_data =
     (if html_content = [] then []
      else
        let soup = parse_html html_content;
            text = lower (page_text soup) in
        if list_ex (\<lambda>kw. contains kw text) block_words then []
        else if list_ex (\<lambda>kw. contains kw text) no_result_marks then []
        else
          let target_address = (case dict_get lead_data ''address'' of None \<Rightarrow> [] | Some a \<Rightarrow> a);
              resident_data = resident_fields soup target_address;
              property_data = extract_property_data soup
          in dict_update resident_data property_data)"

section \<open>One work item (Enrichment.py, enrich_lead_task)\<close>

text \<open>
  A work item is a dictionary of strings, one row of the input table. The run counters
  are a record. What the browser and the network do for one item is given by a
  \<open>task_env\<close>: whether opening a browser context raises, whether the proxy fetch
  succeeds, what the direct page load gives on each attempt, whether reading the page
  raises, the page content, the page content read again after the longer wait, and
  whether parsing the page or writing the debug sample raises. Timer waits are taken not
  to raise.
\<close>

record stats =
  enriched :: int
  failed :: int
  skipped :: int
  saved_to_db :: int

datatype goto_outcome = Response nat string | NoResponse | Raises string

record task_env =
  context_raises :: bool
  proxy_ok :: bool
  goto :: "nat \<Rightarrow> goto_outcome"
  content_raises :: bool
  html_content :: string
  html_after_wait :: string
  late_raises :: bool

definition max_retries :: nat where
  "max_retries = 2"

definition USE_AWS_ROTATION :: bool where
  "USE_AWS_ROTATION = True"

text \<open>
  The first of the given columns whose value is truthy and not blank, stripped; the empty
  string when there is none.
\<close>

fun first_column :: "dict \<Rightarrow> string list \<Rightarrow> string" where
  "first_column lead_data [] = []"
| "first_column lead_data (key # keys) =
     (case dict_get lead_data key of
        None \<Rightarrow> first_column lead_data keys
      | Some v \<Rightarrow> if v \<noteq> [] \<and> strip v \<noteq> [] then strip v else first_column lead_data keys)"

text \<open>
  The search through all items of the row for an address column, whatever its case: each
  candidate is assigned, and the search stops at the first one that is not blank.
\<close>

fun scan_items :: "string \<Rightarrow> dict \<Rightarrow> string" where
  "scan_items cur [] = cur"
| "scan_items cur ((key, v) # rest) =
     (if key \<noteq> [] \<and> v \<noteq> [] \<and> lower key \<in> set [''address'', ''street''] then
        (if strip v \<noteq> [] then strip v else scan_items (strip v) rest)
      else scan_items cur rest)"

definition full_address_of :: "dict \<Rightarrow> string" where
  "full_address_of lead_data =
     (let exact = first_column lead_data
                    [''address'', ''street'', ''Address'', ''Street'', ''ADDRESS'', ''STREET'']
      in if exact \<noteq> [] then exact else scan_items [] lead_data)"

text \<open>
  Steps 1 to 3: city, state, ZIP and street of the item, from its columns and, when city
  or state is missing, from the parsed address. An error of the parser is an exception of
  the task.
\<close>

definition address_parts :: "dict \<Rightarrow> py_error + (string \<times> string \<times> string \<times> string)" where
  "address_parts lead_data =
     (let city = first_column lead_data [''city'', ''City'', ''CITY''];
          state = first_column lead_data [''state'', ''State'', ''STATE''];
          zip_code = first_column lead_data
                       [''zip_code'', ''zip'', ''Zip'', ''ZIP'', ''zipcode'', ''ZipCode'', ''ZIPCODE''];
          full_address_string = full_address_of lead_data
      in if full_address_string \<noteq> [] then
           (if city \<noteq> [] \<and> state \<noteq> [] then Inr (full_address_string, city, state, zip_code)
            else
              bind (parse_full_address (Some full_address_string)) (\<lambda>parsed.
                Inr ((if truthy (pa_street parsed) then fmt (pa_street parsed) else []),
                     (if city = [] \<and> truthy (pa_city parsed) then fmt (pa_city parsed) else city),
                     (if state = [] \<and> truthy (pa_state parsed) then fmt (pa_state parsed)
                      else state),
                     (if zip_code = [] \<and> truthy (pa_zip_code parsed)
                      then fmt (pa_zip_code parsed) else zip_code))))
         else Inr ([], city, state, zip_code))"

text \<open>
  The retry loop. \<open>fetch_from env attempt n\<close> runs the attempts from \<open>attempt\<close> on, \<open>n\<close>
  of them being left; it gives whether the fetch succeeded and the numbers of the
  attempts on which the page was loaded directly.
\<close>

definition off_site :: "string \<Rightarrow> bool" where
  "off_site url = (\<not> contains ''truepeoplesearch.com'' (lower url))"

fun fetch_from :: "task_env \<Rightarrow> nat \<Rightarrow> nat \<Rightarrow> bool \<times> nat list" where
  "fetch_from env attempt 0 = (False, [])"
| "fetch_from env attempt (Suc n) =
     (if USE_AWS_ROTATION \<and> attempt = 0 \<and> proxy_ok env then (True, [])
      else
        let (ok, later) = fetch_from env (attempt + 1) n in
        (case goto env attempt of
           Response status final_url \<Rightarrow>
             if status \<ge> 400 \<and> attempt < max_retries - 1 then (ok, attempt # later)
             else if off_site final_url \<and>
                     (contains ''cloudflare'' (lower final_url) \<or>
                      contains ''challenge'' (lower final_url)) \<and>
                     attempt < max_retries - 1 then (ok, attempt # later)
             else (True, [attempt])
         | NoResponse \<Rightarrow> (ok, attempt # later)
         | Raises msg \<Rightarrow> (ok, attempt # later)))"

definition fetch_loop :: "task_env \<Rightarrow> bool \<times> nat list" where
  "fetch_loop env = fetch_from env 0 max_retries"

text \<open>
  The page handed to the extractor: the content is read again when the first reading
  names neither an estimated value nor a property and holds a blocking word.
\<close>

definition final_html :: "task_env \<Rightarrow> string" where
  "final_html env =
     (let page_text_lower = lower (html_content env) in
      if \<not> contains ''estimated value'' page_text_lower \<and>
         \<not> contains ''property'' page_text_lower \<and>
         list_ex (\<lambda>kw. contains kw page_text_lower)
           [''cloudflare'', ''challenge'', ''checking your browser'', ''access denied'',
            ''blocked'']
      then html_after_wait env
      else html_content env)"

definition count_enriched :: "stats \<Rightarrow> stats" where
  "count_enriched s = s\<lparr>enriched := enriched s + 1\<rparr>"

definition count_failed :: "stats \<Rightarrow> stats" where
  "count_failed s = s\<lparr>failed := failed s + 1\<rparr>"

definition count_skipped :: "stats \<Rightarrow> stats" where
  "count_skipped s = s\<lparr>skipped := skipped s + 1\<rparr>"

text \<open>
  The part of the task after the address is known: the URL, the browser context, the
  fetch, the extraction and the counting. The result is the item and the counters.
\<close>

definition fetch_and_extract ::
  "(string \<Rightarrow> document) \<Rightarrow> task_env \<Rightarrow> dict \<Rightarrow> stats \<Rightarrow> string \<Rightarrow> string \<Rightarrow> string \<Rightarrow> string
     \<Rightarrow> dict \<times> stats" where
  "fetch_and_extract parse_html env lead_data st address city state zip_code =
     (case build_truepeoplesearch_url (Some address) (Some city) (Some state) (Some zip_code) of
        Inl e \<Rightarrow> (if e = ValueError then (lead_data, count_skipped st)
                   else (lead_data, count_failed st))
      | Inr search_url \<Rightarrow>
          if off_site search_url then (lead_data, count_failed st)
          else if context_raises env then (lead_data, count_failed st)
          else if off_site search_url then (lead_data, count_failed st)
          else if \<not> fst (fetch_loop env) then (lead_data, count_failed st)
          else if content_raises env then (lead_data, count_failed st)
          else
            let extracted_data = extract_all parse_html (final_html env) lead_data in
            if late_raises env then (lead_data, count_failed st)
            else if extracted_data \<noteq> [] then
              (dict_update lead_data extracted_data, count_enriched st)
            else (lead_data, count_failed st))"

definition enrich_lead_task ::
  "(string \<Rightarrow> document) \<Rightarrow> task_env \<Rightarrow> dict \<Rightarrow> stats \<Rightarrow> dict \<times> stats" where
  "enrich_lead_task parse_html env lead_data st =
     (case address_parts lead_data of
        Inl e \<Rightarrow> (lead_data, count_failed st)
      | Inr (address, city, state, zip_code) \<Rightarrow>
          if \<not> (address \<noteq> [] \<and> city \<noteq> [] \<and> state \<noteq> []) then (lead_data, count_skipped st)
          else
            let lead_data1 = (if \<not> truthy (dict_get lead_data ''address'')
                              then dict_set ''address'' address lead_data else lead_data)
            in fetch_and_extract parse_html env lead_data1 st address city state zip_code)"

section \<open>The record merger (supabase_client.py, save_lead_to_supabase)\<close>

text \<open>
  The values of a payload: strings, integers, floats, booleans, lists of strings and the
  object of unmapped fields. Python's floats are not modelled: their type is the
  parameter \<open>'f\<close>, and the library functions that read numbers and dates are
  parameters too, collected in \<open>pylib\<close>:
  \<^item> \<open>float_of_str\<close>: \<open>float(s)\<close>, None when it raises ValueError;
  \<^item> \<open>int_of_float\<close>: \<open>int(x)\<close> for a float, which raises for an infinity or a NaN;
  \<^item> \<open>int_of_str\<close>: \<open>int(s)\<close>, None when it raises ValueError;
  \<^item> \<open>to_datetime_iso\<close>: \<open>pd.to_datetime(s).isoformat()\<close>.
\<close>

datatype 'f jval =
    JStr string
  | JInt int
  | JNum 'f
  | JBool bool
  | JList "string list"
  | JObj dict

record 'f pylib =
  float_of_str :: "string \<Rightarrow> 'f option"
  int_of_float :: "'f \<Rightarrow> py_error + int"
  int_of_str :: "string \<Rightarrow> int option"
  to_datetime_iso :: "string \<Rightarrow> py_error + string"

definition FIELD_MAPPINGS :: "(string \<times> string list) list" where
  "FIELD_MAPPINGS = [
    (''listing_id'', [''listing_id'', ''property_id'']),
    (''property_url'', [''property_url'']),
    (''permalink'', [''permalink'']),
    (''street'', [''address'', ''street'']),
    (''unit'', [''unit'']),
    (''city'', [''city'']),
    (''state'', [''state'']),
    (''zip_code'', [''zip_code'']),
    (''beds'', [''beds'']),
    (''full_baths'', [''full_baths'']),
    (''half_baths'', [''half_baths'']),
    (''sqft'', [''sqft'']),
    (''year_built'', [''year_built'']),
    (''list_price'', [''list_price'']),
    (''list_price_min'', [''list_price_min'']),
    (''list_price_max'', [''list_price_max'']),
    (''status'', [''status'', ''mls_status'']),
    (''mls'', [''mls'', ''mls_id'']),
    (''agent_name'', [''agent_name'']),
    (''agent_email'', [''agent_email'', ''listing_agent_email'']),
    (''agent_phone'', [''agent_phone'', ''agent_phone_1'', ''listing_agent_phone'']),
    (''photos'', [''photos'']),
    (''price_per_sqft'', [''price_per_sqft'']),
    (''listing_source_name'', [''listing_source_name'', ''listing_source'']),
    (''listing_source_id'', [''listing_source_id'']),
    (''monthly_payment_estimate'', [''monthly_payment_estimate'']),
    (''ai_investment_score'', [''ai_investment_score'']),
    (''time_listed'', [''time_listed'']),
    (''agent_phone_2'', [''agent_phone_2'']),
    (''listing_agent_phone_2'', [''listing_agent_phone_2'']),
    (''listing_agent_phone_4'', [''listing_agent_phone_4'']),
    (''estimated_value'', [''estimated_value'']),
    (''Estimated_Equity'', [''estimated_equity'']),
    (''Last_Sale_Date'', [''last_sale_date'']),
    (''Last_Sale_Amount'', [''last_sale_amount'']),
    (''Year_Built'', [''year_built_enriched'']),
    (''Ownership_Type'', [''ownership_type'']),
    (''Occupancy_Type'', [''occupancy_type'']),
    (''Property_Class'', [''property_class'']),
    (''Land_Use'', [''land_use'']),
    (''Full_Name'', [''full_name'']),
    (''Age'', [''age'']),
    (''Other_Observed_Names'', [''other_observed_names'']),
    (''Relatives'', [''relatives'']),
    (''Resident_Phone_Number'', [''resident_phone_number'']),
    (''Other_Resident_Phone_Number'', [''other_resident_phone_number''])]"

text \<open>The first of the keys whose value is there and not empty.\<close>

fun get_field_value :: "dict \<Rightarrow> string list \<Rightarrow> string option" where
  "get_field_value lead_data [] = None"
| "get_field_value lead_data (key # keys) =
     (case dict_get lead_data key of
        None \<Rightarrow> get_field_value lead_data keys
      | Some v \<Rightarrow> if v \<noteq> [] then Some v else get_field_value lead_data keys)"

text \<open>\<open>s.replace(old, '')\<close> for a one-character \<open>old\<close>.\<close>

definition remove_char :: "char \<Rightarrow> string \<Rightarrow> string" where
  "remove_char ch s = filter (\<lambda>c. c \<noteq> ch) s"

definition number_re :: regex where
  "number_re = Grp 0 (r_plus (Chr (\<lambda>c. is_digit c \<or> c = CHR ''.'')))"

definition parse_price :: "'f pylib \<Rightarrow> string \<Rightarrow> py_error + int option" where
  "parse_price lib v =
     (if v = [] then Inr None
      else
        let clean_value = strip (remove_char CHR '','' (remove_char CHR ''$'' v)) in
        (case re_match number_re clean_value of
           None \<Rightarrow> Inr None
         | Some m \<Rightarrow>
             (case group_of m 0 of
                None \<Rightarrow> Inr None
              | Some numeric_part \<Rightarrow>
                  (case float_of_str lib numeric_part of
                     None \<Rightarrow> Inr None
                   | Some x \<Rightarrow>
                       (case int_of_float lib x of
                          Inl e \<Rightarrow> if e = ValueError \<or> e = TypeError then Inr None else Inl e
                        | Inr n \<Rightarrow> Inr (Some n))))))"

definition parse_integer :: "'f pylib \<Rightarrow> string \<Rightarrow> int option" where
  "parse_integer lib v =
     (if v = [] then None
      else
        let clean_value = (case split_on CHR ''.'' v of [] \<Rightarrow> [] | p # ps \<Rightarrow> p) in
        int_of_str lib (filter (\<lambda>c. is_digit c \<or> c = CHR ''-'') clean_value))"

definition parse_float :: "'f pylib \<Rightarrow> string \<Rightarrow> 'f option" where
  "parse_float lib v =
     (if v = [] then None else float_of_str lib (strip (remove_char CHR '','' v)))"

definition parse_photos_json :: "string option \<Rightarrow> string list option" where
  "parse_photos_json photos_str =
     (case photos_str of
        None \<Rightarrow> None
      | Some s \<Rightarrow>
          if s = [] then None
          else
            let urls = filter (\<lambda>u. prefix ''http'' u) (map strip (split_on CHR '','' s)) in
            if urls \<noteq> [] then Some urls else None)"

definition parse_datetime :: "'f pylib \<Rightarrow> string \<Rightarrow> py_error + string option" where
  "parse_datetime lib v =
     (if v = [] then Inr None
      else (case to_datetime_iso lib v of
              Inr stamp \<Rightarrow> Inr (Some stamp)
            | Inl e \<Rightarrow> if e = ValueError \<or> e = TypeError then Inr None else Inl e))"

text \<open>The fields of the item that no column claims, without the empty ones.\<close>

definition all_mapped_source_keys :: "string list" where
  "all_mapped_source_keys = concat (map snd FIELD_MAPPINGS)"

definition build_other_json :: "dict \<Rightarrow> dict option" where
  "build_other_json lead_data =
     (let other_data = filter (\<lambda>(k, v). k \<notin> set all_mapped_source_keys \<and> v \<noteq> []) lead_data
      in if other_data \<noteq> [] then Some other_data else None)"

text \<open>
  A timestamp column: a relative time (a number, whitespace, a unit of time) and a text
  with a non-date word and no four digits in a row are left out; what is left is parsed
  as a date and left out when that fails.
\<close>

definition r_word_i :: "string \<Rightarrow> regex" where
  "r_word_i w = r_seq (map (\<lambda>ch. Chr (\<lambda>c. lower_char c = ch)) w)"

definition r_any :: "regex list \<Rightarrow> regex" where
  "r_any rs = (case rs of [] \<Rightarrow> Eps | r # more_rs \<Rightarrow> foldl Alt r more_rs)"

definition relative_time_re :: regex where
  "relative_time_re =
     r_seq [Bol, r_plus digit, r_plus space,
            Grp 1 (r_any (map r_word_i
              [''minute'', ''hour'', ''day'', ''week'', ''month'', ''year'']))]"

definition four_digits_re :: regex where
  "four_digits_re = r_rep 4 digit"

definition non_date_keywords :: "string list" where
  "non_date_keywords =
     [''single-family'', ''family'', ''condo'', ''townhouse'', ''apartment'', ''commercial'']"

definition timestamp_value :: "'f pylib \<Rightarrow> string \<Rightarrow> py_error + string option" where
  "timestamp_value lib v =
     (let field_value = strip v in
      if re_match relative_time_re field_value \<noteq> None then Inr None
      else if re_search four_digits_re field_value = None \<and>
              list_ex (\<lambda>kw. contains kw (lower field_value)) non_date_keywords then Inr None
      else bind (parse_datetime lib field_value) (\<lambda>parsed_time.
             Inr (if truthy parsed_time then parsed_time else None)))"

definition price_cols :: "string list" where
  "price_cols = [''list_price'', ''list_price_min'', ''list_price_max'', ''estimated_value'',
                 ''Estimated_Equity'', ''Last_Sale_Amount'']"

definition int_cols :: "string list" where
  "int_cols = [''year_built'', ''half_baths'']"

definition float_cols :: "string list" where
  "float_cols = [''price_per_sqft'', ''ai_investment_score'']"

definition timestamp_fields :: "string list" where
  "timestamp_fields = [''time_listed'', ''Last_Sale_Date'']"

text \<open>
  The value of one mapped column of the payload, None when the column is left out. The
  four conversions of the source apply to disjoint sets of columns, so they are written
  here as one choice by column.
\<close>

definition column_value :: "'f pylib \<Rightarrow> dict \<Rightarrow> string \<times> string list \<Rightarrow> py_error + 'f jval option" where
  "column_value lib lead_data m =
     (case get_field_value lead_data (snd m) of
        None \<Rightarrow> Inr None
      | Some v \<Rightarrow>
          if fst m \<in> set price_cols then
            bind (parse_price lib v) (\<lambda>r. Inr (map_option JInt r))
          else if fst m \<in> set int_cols then Inr (map_option JInt (parse_integer lib v))
          else if fst m \<in> set float_cols then Inr (map_option JNum (parse_float lib v))
          else if fst m \<in> set timestamp_fields then
            bind (timestamp_value lib v) (\<lambda>r. Inr (map_option JStr r))
          else Inr (Some (JStr v)))"

fun mapped_columns ::
  "'f pylib \<Rightarrow> dict \<Rightarrow> (string \<times> string list) list \<Rightarrow> py_error + (string \<times> 'f jval) list" where
  "mapped_columns lib lead_data [] = Inr []"
| "mapped_columns lib lead_data (m # mappings) =
     bind (column_value lib lead_data m) (\<lambda>v.
     bind (mapped_columns lib lead_data mappings) (\<lambda>rest.
       Inr (case v of None \<Rightarrow> rest | Some x \<Rightarrow> (fst m, x) # rest)))"

text \<open>The clock of one call: today's date and the present time in ISO format.\<close>

record save_env =
  client_ok :: bool
  upsert_ok :: bool
  now_date :: string
  now_iso :: string

definition special_columns :: "save_env \<Rightarrow> dict \<Rightarrow> (string \<times> 'f jval) list" where
  "special_columns env lead_data =
     [(''scrape_date'', JStr (case dict_get lead_data ''scrape_date'' of
                                None \<Rightarrow> now_date env | Some d \<Rightarrow> d)),
      (''last_scraped_at'', JStr (now_iso env)),
      (''active'', JBool True)] @
     (case parse_photos_json (get_field_value lead_data [''photos'']) of
        None \<Rightarrow> [] | Some urls \<Rightarrow> [(''photos_json'', JList urls)]) @
     (case build_other_json lead_data of
        None \<Rightarrow> [] | Some other \<Rightarrow> [(''other'', JObj other)])"

definition final_payload :: "'f pylib \<Rightarrow> save_env \<Rightarrow> dict \<Rightarrow> py_error + (string \<times> 'f jval) list" where
  "final_payload lib env lead_data =
     bind (mapped_columns lib lead_data FIELD_MAPPINGS) (\<lambda>cols.
       Inr (cols @ special_columns env lead_data))"

text \<open>
  Modelled from the spec: the persistent store and its upsert. The store is one table of
  rows, a row gives a value to some columns, and an upsert with the conflict target
  \<open>property_url\<close> updates the columns of the payload in the rows that have the payload's key
  and leaves their other columns untouched, or adds the payload as a new row when no row
  has the key.
\<close>

type_synonym 'f row = "string \<Rightarrow> 'f jval option"

definition upsert :: "(string \<times> 'f jval) list \<Rightarrow> 'f row list \<Rightarrow> 'f row list" where
  "upsert payload table =
     (let key = map_of payload ''property_url'' in
      if list_ex (\<lambda>r. r ''property_url'' = key) table
      then map (\<lambda>r. if r ''property_url'' = key then r ++ map_of payload else r) table
      else table @ [map_of payload])"


definition save_lead_to_supabase ::
  "'f pylib \<Rightarrow> save_env \<Rightarrow> dict \<Rightarrow> 'f row list \<Rightarrow> bool \<times> 'f row list" where
  "save_lead_to_supabase lib env lead_data table =
     (if \<not> client_ok env then (False, table)
      else if lead_data = [] \<or> \<not> truthy (dict_get lead_data ''property_url'') then (False, table)
      else
        (case final_payload lib env lead_data of
           Inl e \<Rightarrow> (False, table)
         | Inr payload \<Rightarrow>
             if map_of payload ''property_url'' = None then (False, table)
             else if \<not> upsert_ok env then (False, table)
             else (True, upsert payload table)))"

section \<open>The run (Enrichment.py, run_enrichment_pipeline)\<close>

text \<open>
  A run takes the work items with what the world does for each of them: the environment
  of its task and the environment of its save. The tasks are independent of each other
  and only add to the counters, so they are run here one after the other, in the order
  of the input; then every result, whatever its task counted, is saved.
\<close>

record item =
  lead :: dict
  task_world :: task_env
  save_world :: save_env

definition zero_stats :: stats where
  "zero_stats = \<lparr>enriched = 0, failed = 0, skipped = 0, saved_to_db = 0\<rparr>"

fun run_tasks :: "(string \<Rightarrow> document) \<Rightarrow> item list \<Rightarrow> stats \<Rightarrow> (dict \<times> save_env) list \<times> stats" where
  "run_tasks parse_html [] st = ([], st)"
| "run_tasks parse_html (it # items) st =
     (let (result, st1) = enrich_lead_task parse_html (task_world it) (lead it) st;
          (results, st2) = run_tasks parse_html items st1
      in ((result, save_world it) # results, st2))"

fun upload :: "'f pylib \<Rightarrow> (dict \<times> save_env) list \<Rightarrow> stats \<Rightarrow> 'f row list \<Rightarrow> stats \<times> 'f row list" where
  "upload lib [] st table = (st, table)"
| "upload lib ((result, env) # results) st table =
     (let (saved, table1) = save_lead_to_supabase lib env result table in
      upload lib results (if saved then st\<lparr>saved_to_db := saved_to_db st + 1\<rparr> else st) table1)"

definition run_enrichment_pipeline ::
  "(string \<Rightarrow> document) \<Rightarrow> 'f pylib \<Rightarrow> item list \<Rightarrow> 'f row list \<Rightarrow> stats \<times> 'f row list" where
  "run_enrichment_pipeline parse_html lib items table =
     (let (enriched_results, st) = run_tasks parse_html items zero_stats in
      upload lib enriched_results st table)"

text \<open>The number of items the run reports as processed.\<close>

definition total_processed :: "stats \<Rightarrow> int" where
  "total_processed st = enriched st + failed st + skipped st"

section \<open>Example inputs\<close>


definition combined_lead :: dict where
  "combined_lead = [(''property_url'', ''https://www.redfin.com/home/2''),
                    (''address'', ''123 Main St, Springfield, IL 62701'')]"

definition tps_page :: string where
  "tps_page = ''https://www.truepeoplesearch.com/resultaddress?streetaddress=123+Main+St''"

definition goto_404_then_200 :: "nat \<Rightarrow> goto_outcome" where
  "goto_404_then_200 n = (if n = 0 then Response 404 tps_page else Response 200 tps_page)"

definition world_404 :: task_env where
  "world_404 = \<lparr>context_raises = False, proxy_ok = False, goto = goto_404_then_200,
                 content_raises = False, html_content = ''Access denied. Are you a robot?'',
                 html_after_wait = ''Access denied. Are you a robot?'', late_raises = False\<rparr>"

definition no_obs :: field_obs where
  "no_obs = \<lparr>css_text = None, xpath_text = None, label_texts = [], alt_texts = []\<rparr>"

definition sentinel_obs :: field_obs where
  "sentinel_obs = \<lparr>css_text = Some ''N/A'', xpath_text = None,
                    label_texts = [''$350,000''], alt_texts = []\<rparr>"

definition label_obs :: field_obs where
  "label_obs = \<lparr>css_text = None, xpath_text = Some '''',
                 label_texts = [''N/A'', ''$350,000''], alt_texts = []\<rparr>"

definition xpath_obs :: field_obs where
  "xpath_obs = \<lparr>css_text = Some '''', xpath_text = Some ''Built in 1987.'',
                 label_texts = [''1990''], alt_texts = []\<rparr>"

definition no_fields :: "string \<Rightarrow> dict" where
  "no_fields target_address = []"

definition no_lookup :: "string \<Rightarrow> field_obs" where
  "no_lookup field_name = no_obs"

definition plain_text_parser :: "string \<Rightarrow> document" where
  "plain_text_parser html = \<lparr>page_text = html, has_property_card = False,
                               resident_fields = no_fields, field_lookup = no_lookup\<rparr>"

definition no_float :: "string \<Rightarrow> unit option" where
  "no_float s = None"

definition no_int_of_float :: "unit \<Rightarrow> py_error + int" where
  "no_int_of_float x = Inl ValueError"

definition no_int :: "string \<Rightarrow> int option" where
  "no_int s = None"

definition no_date :: "string \<Rightarrow> py_error + string" where
  "no_date s = Inl ValueError"

definition plain_lib :: "unit pylib" where
  "plain_lib = \<lparr>float_of_str = no_float, int_of_float = no_int_of_float, int_of_str = no_int,
                  to_datetime_iso = no_date\<rparr>"

definition clock_1 :: save_env where
  "clock_1 = \<lparr>client_ok = True, upsert_ok = True, now_date = ''2025-10-29'',
               now_iso = ''2025-10-29T10:00:00.000001''\<rparr>"


definition blocked_item :: item where
  "blocked_item = \<lparr>lead = combined_lead, task_world = world_404, save_world = clock_1\<rparr>"

section \<open>Properties of the string operations\<close>

lemma strip_nonempty: "\<exists>c \<in> set s. \<not> is_space c \<Longrightarrow> strip s \<noteq> []"
proof -
  assume a: "\<exists>c \<in> set s. \<not> is_space c"
  define t where "t = dropWhile is_space s"
  from a have t: "t \<noteq> []" by (auto simp: t_def)
  then have "\<not> is_space (hd t)" unfolding t_def by (rule hd_dropWhile)
  with t have "\<exists>c \<in> set (rev t). \<not> is_space c" by (cases t) auto
  then have "dropWhile is_space (rev t) \<noteq> []" by auto
  then show ?thesis by (simp add: strip_def t_def)
qed

lemma strip_id: "s \<noteq> [] \<Longrightarrow> \<not> is_space (hd s) \<Longrightarrow> \<not> is_space (last s) \<Longrightarrow> strip s = s"
proof -
  assume s: "s \<noteq> []" and h: "\<not> is_space (hd s)" and l: "\<not> is_space (last s)"
  from s h have 1: "dropWhile is_space s = s" by (cases s) auto
  from s l have "\<not> is_space (hd (rev s))" by (simp add: hd_rev)
  with s have 2: "dropWhile is_space (rev s) = rev s" by (cases "rev s") auto
  show ?thesis by (simp add: strip_def 1 2)
qed

lemma strip_no_space: "\<forall>c \<in> set s. \<not> is_space c \<Longrightarrow> strip s = s"
proof (cases s)
  case Nil
  then show ?thesis by (simp add: strip_def)
next
  case (Cons x xs)
  assume "\<forall>c \<in> set s. \<not> is_space c"
  then have "\<not> is_space (hd s)" "\<not> is_space (last s)" using Cons by auto
  then show ?thesis using Cons by (intro strip_id) auto
qed

lemma strip_space_prefix: "list_all is_space w \<Longrightarrow> strip (w @ s) = strip s"
  by (simp add: strip_def dropWhile_append list_all_iff)

lemma strip_of_spaces: "list_all is_space w \<Longrightarrow> strip w = []"
  using strip_space_prefix [of w "[]"] by (simp add: strip_def)

lemma strip_eq_Nil_iff: "strip s = [] \<longleftrightarrow> list_all is_space s"
  using strip_nonempty [of s] strip_of_spaces [of s] by (auto simp: list_all_iff)

lemma length_upper: "length (upper s) = length s"
  by (simp add: upper_def)

lemma upper_eq_Nil_iff: "upper s = [] \<longleftrightarrow> s = []"
  by (simp add: upper_def)


lemma alpha_not_space: "is_alpha c \<Longrightarrow> \<not> is_space c"
  by (auto simp: is_alpha_def is_upper_def is_lower_def is_space_def)

lemma digit_not_space: "is_digit c \<Longrightarrow> \<not> is_space c"
  by (auto simp: is_digit_def is_space_def)





text \<open>The pieces of \<open>s.split()\<close> are not empty and hold no whitespace.\<close>

lemma split_ws_parts: "p \<in> set (split_ws s) \<Longrightarrow> p \<noteq> [] \<and> (\<forall>c \<in> set p. \<not> is_space c)"
proof (induction s arbitrary: p)
  case Nil
  then show ?case by simp
next
  case (Cons x xs)
  show ?case
  proof (cases "is_space x")
    case True
    with Cons show ?thesis by simp
  next
    case False
    show ?thesis
    proof (cases xs)
      case Nil
      with Cons.prems False show ?thesis by simp
    next
      case (Cons y ys)
      show ?thesis
      proof (cases "is_space y")
        case True
        with Cons.prems Cons.IH False Cons show ?thesis by auto
      next
        case sp: False
        show ?thesis
        proof (cases "split_ws xs")
          case Nil
          with Cons.prems False Cons sp show ?thesis by simp
        next
          case (Cons q qs)
          with Cons.prems False \<open>xs = y # ys\<close> sp have "p = x # q \<or> p \<in> set qs" by auto
          moreover have "q \<noteq> [] \<and> (\<forall>c \<in> set q. \<not> is_space c)"
            using Cons.IH [of q] Cons by simp
          moreover have "p \<in> set qs \<Longrightarrow> p \<noteq> [] \<and> (\<forall>c \<in> set p. \<not> is_space c)"
            using Cons.IH [of p] Cons by simp
          ultimately show ?thesis using False by auto
        qed
      qed
    qed
  qed
qed

section \<open>Properties of the URL builder\<close>





section \<open>Properties of the matcher\<close>

text \<open>Every match consumes a piece of the text in front of the cursor, and nothing else.\<close>

lemma last_char_append: "last_char (last_char p a) b = last_char p (a @ b)"
  by (simp add: last_char_def)

lemma consumes_refl: "consumes st st"
  by (simp add: consumes_def last_char_def)

lemma consumes_trans: "consumes a b \<Longrightarrow> consumes b c \<Longrightarrow> consumes a c"
  unfolding consumes_def
  by (metis append.assoc last_char_append)

lemma star_iter_consumes:
  assumes f: "\<And>st c st' c'. (st', c') \<in> set (f st c) \<Longrightarrow> consumes st st'"
  shows "(st', c') \<in> set (star_iter g f n st c) \<Longrightarrow> consumes st st'"
proof (induction n arbitrary: st c)
  case 0
  then show ?case by (simp add: consumes_refl)
next
  case (Suc n)
  from Suc.prems have "(st', c') = (st, c) \<or>
      (\<exists>st1 c1. (st1, c1) \<in> set (f st c) \<and> (st', c') \<in> set (star_iter g f n st1 c1))"
    by (auto simp: Let_def split: if_splits)
  then show ?case
  proof
    assume "(st', c') = (st, c)"
    then show ?thesis by (simp add: consumes_refl)
  next
    assume "\<exists>st1 c1. (st1, c1) \<in> set (f st c) \<and> (st', c') \<in> set (star_iter g f n st1 c1)"
    then obtain st1 c1 where a: "(st1, c1) \<in> set (f st c)"
      and b: "(st', c') \<in> set (star_iter g f n st1 c1)" by blast
    from f [OF a] Suc.IH [OF b] show ?thesis by (rule consumes_trans)
  qed
qed

lemma ms_consumes: "(st', c') \<in> set (ms r st c) \<Longrightarrow> consumes st st'"
proof (induction r arbitrary: st c st' c')
  case (Chr P)
  obtain p s where st: "st = (p, s)" by (cases st)
  from Chr show ?case unfolding st
    by (cases s) (auto simp: consumes_def last_char_def split: if_splits)
next
  case Eps
  then show ?case by (simp add: consumes_refl)
next
  case (Seq a b)
  from Seq.prems obtain st1 c1 where "(st1, c1) \<in> set (ms a st c)" "(st', c') \<in> set (ms b st1 c1)"
    by auto
  then show ?case using Seq.IH consumes_trans by blast
next
  case (Alt a b)
  from Alt.prems have "(st', c') \<in> set (ms a st c) \<or> (st', c') \<in> set (ms b st c)" by simp
  then show ?case using Alt.IH by blast
next
  case (Star r)
  from Star.prems have "(st', c') \<in> set (star_iter True (ms r) (length (snd st)) st c)" by simp
  then show ?case by (rule star_iter_consumes [rotated]) (rule Star.IH)
next
  case (LazyStar r)
  from LazyStar.prems have "(st', c') \<in> set (star_iter False (ms r) (length (snd st)) st c)" by simp
  then show ?case by (rule star_iter_consumes [rotated]) (rule LazyStar.IH)
next
  case (Grp k r)
  from Grp.prems obtain c1 where "(st', c1) \<in> set (ms r st c)" by auto
  then show ?case by (rule Grp.IH)
next
  case Bol
  then show ?case by (simp add: consumes_refl split: if_splits)
next
  case Eol
  then show ?case by (simp add: consumes_refl split: if_splits)
next
  case WordB
  then show ?case by (simp add: consumes_refl split: if_splits)
next
  case (Look r)
  then show ?case by (simp add: consumes_refl split: if_splits)
qed


text \<open>A match only adds bindings, and only for the groups of its pattern.\<close>

lemma extends_refl: "extends G c c"
  by (simp add: extends_def)

lemma extends_trans: "extends G a b \<Longrightarrow> extends H b c \<Longrightarrow> extends (G \<union> H) a c"
  unfolding extends_def by fastforce

lemma extends_mono: "extends G a b \<Longrightarrow> G \<subseteq> H \<Longrightarrow> extends H a b"
  unfolding extends_def by blast

lemma extends_Cons: "extends G a b \<Longrightarrow> k \<in> G \<Longrightarrow> extends G a ((k, v) # b)"
  unfolding extends_def by fastforce

lemma extends_map_of: "extends G c c' \<Longrightarrow> k \<notin> G \<Longrightarrow> map_of c' k = map_of c k"
proof -
  assume e: "extends G c c'" and k: "k \<notin> G"
  from e obtain d where d: "c' = d @ c" "fst ` set d \<subseteq> G" by (auto simp: extends_def)
  from d(2) k have "map_of d k = None" by (auto simp: map_of_eq_None_iff)
  with d(1) show ?thesis by (simp add: map_add_def)
qed

lemma star_iter_extends:
  assumes f: "\<And>st c st' c'. (st', c') \<in> set (f st c) \<Longrightarrow> extends G c c'"
  shows "(st', c') \<in> set (star_iter g f n st c) \<Longrightarrow> extends G c c'"
proof (induction n arbitrary: st c)
  case 0
  then show ?case by (simp add: extends_refl)
next
  case (Suc n)
  from Suc.prems have "(st', c') = (st, c) \<or>
      (\<exists>st1 c1. (st1, c1) \<in> set (f st c) \<and> (st', c') \<in> set (star_iter g f n st1 c1))"
    by (auto simp: Let_def split: if_splits)
  then show ?case
  proof
    assume "(st', c') = (st, c)"
    then show ?thesis by (simp add: extends_refl)
  next
    assume "\<exists>st1 c1. (st1, c1) \<in> set (f st c) \<and> (st', c') \<in> set (star_iter g f n st1 c1)"
    then obtain st1 c1 where a: "(st1, c1) \<in> set (f st c)"
      and b: "(st', c') \<in> set (star_iter g f n st1 c1)" by blast
    from extends_trans [OF f [OF a] Suc.IH [OF b]] show ?thesis by simp
  qed
qed

lemma ms_extends: "(st', c') \<in> set (ms r st c) \<Longrightarrow> extends (grps r) c c'"
proof (induction r arbitrary: st c st' c')
  case (Seq a b)
  from Seq.prems obtain st1 c1 where "(st1, c1) \<in> set (ms a st c)" "(st', c') \<in> set (ms b st1 c1)"
    by auto
  then have "extends (grps a) c c1" "extends (grps b) c1 c'" using Seq.IH by blast+
  then show ?case using extends_trans by simp
next
  case (Alt a b)
  from Alt.prems have "(st', c') \<in> set (ms a st c) \<or> (st', c') \<in> set (ms b st c)" by simp
  then have "extends (grps a) c c' \<or> extends (grps b) c c'" using Alt.IH by blast
  then show ?case using extends_mono [of _ c c' "grps a \<union> grps b"] by auto
next
  case (Star r)
  from Star.prems have "(st', c') \<in> set (star_iter True (ms r) (length (snd st)) st c)" by simp
  then have "extends (grps r) c c'" by (rule star_iter_extends [rotated]) (rule Star.IH)
  then show ?case by simp
next
  case (LazyStar r)
  from LazyStar.prems have "(st', c') \<in> set (star_iter False (ms r) (length (snd st)) st c)" by simp
  then have "extends (grps r) c c'" by (rule star_iter_extends [rotated]) (rule LazyStar.IH)
  then show ?case by simp
next
  case (Grp k r)
  from Grp.prems obtain c1 v where c1: "(st', c1) \<in> set (ms r st c)" "c' = (k, v) # c1" by auto
  from Grp.IH [OF c1(1)] have "extends (insert k (grps r)) c c1"
    by (rule extends_mono) blast
  then show ?case unfolding c1(2) by (simp add: extends_Cons)
qed (auto simp: extends_refl split: list.splits if_splits)

text \<open>
  The matcher read as a relation: \<open>steps r p c pre rest c'\<close> says that \<open>r\<close>, started
  after the character \<open>p\<close> with captures \<open>c\<close> on the text \<open>pre @ rest\<close>, can consume
  exactly \<open>pre\<close> and end with captures \<open>c'\<close>.
\<close>

lemma in_ms_steps:
  "(st', c') \<in> set (ms r (p, s) c) \<longleftrightarrow>
     (\<exists>pre rest. s = pre @ rest \<and> st' = (last_char p pre, rest) \<and> steps r p c pre rest c')"
proof
  assume m: "(st', c') \<in> set (ms r (p, s) c)"
  from ms_consumes [OF m] obtain pre where "s = pre @ snd st'" "fst st' = last_char p pre"
    by (auto simp: consumes_def)
  then have st': "st' = (last_char p pre, snd st')" "s = pre @ snd st'"
    by (simp_all add: prod_eq_iff)
  from m have "((last_char p pre, snd st'), c') \<in> set (ms r (p, pre @ snd st') c)"
    using st' by simp
  with st' have "s = pre @ snd st' \<and> st' = (last_char p pre, snd st') \<and> steps r p c pre (snd st') c'"
    by (simp add: steps_def)
  then show "\<exists>pre rest. s = pre @ rest \<and> st' = (last_char p pre, rest) \<and> steps r p c pre rest c'"
    by blast
next
  assume "\<exists>pre rest. s = pre @ rest \<and> st' = (last_char p pre, rest) \<and> steps r p c pre rest c'"
  then show "(st', c') \<in> set (ms r (p, s) c)" by (auto simp: steps_def)
qed

lemma steps_Chr: "steps (Chr P) p c pre rest c' \<longleftrightarrow> (\<exists>x. pre = [x] \<and> P x) \<and> c' = c"
proof (cases pre)
  case Nil
  then show ?thesis by (cases rest) (auto simp: steps_def last_char_def split: if_splits)
next
  case (Cons x xs)
  then show ?thesis by (auto simp: steps_def last_char_def split: if_splits)
qed

lemma steps_Eps: "steps Eps p c pre rest c' \<longleftrightarrow> pre = [] \<and> c' = c"
  by (auto simp: steps_def last_char_def)

lemma steps_Seq:
  "steps (Seq a b) p c pre rest c' \<longleftrightarrow>
     (\<exists>pre1 pre2 c1. pre = pre1 @ pre2 \<and> steps a p c pre1 (pre2 @ rest) c1 \<and>
        steps b (last_char p pre1) c1 pre2 rest c')"
proof
  assume "steps (Seq a b) p c pre rest c'"
  then obtain st1 c1 where a: "(st1, c1) \<in> set (ms a (p, pre @ rest) c)"
    and b: "((last_char p pre, rest), c') \<in> set (ms b st1 c1)"
    by (auto simp: steps_def)
  from a obtain pre1 s1 where 1: "pre @ rest = pre1 @ s1" "st1 = (last_char p pre1, s1)"
      "steps a p c pre1 s1 c1"
    unfolding in_ms_steps by blast
  from b obtain pre2 r2 where 2: "s1 = pre2 @ r2"
      "(last_char p pre, rest) = (last_char (last_char p pre1) pre2, r2)"
      "steps b (last_char p pre1) c1 pre2 r2 c'"
    unfolding 1(2) in_ms_steps by blast
  from 1(1) 2(1,2) have "pre = pre1 @ pre2" by simp
  with 1 2 show "\<exists>pre1 pre2 c1. pre = pre1 @ pre2 \<and> steps a p c pre1 (pre2 @ rest) c1 \<and>
        steps b (last_char p pre1) c1 pre2 rest c'" by auto
next
  assume "\<exists>pre1 pre2 c1. pre = pre1 @ pre2 \<and> steps a p c pre1 (pre2 @ rest) c1 \<and>
        steps b (last_char p pre1) c1 pre2 rest c'"
  then obtain pre1 pre2 c1 where "pre = pre1 @ pre2" "steps a p c pre1 (pre2 @ rest) c1"
      "steps b (last_char p pre1) c1 pre2 rest c'" by blast
  then show "steps (Seq a b) p c pre rest c'"
    unfolding steps_def by (force simp: last_char_append)
qed

lemma steps_Alt:
  "steps (Alt a b) p c pre rest c' \<longleftrightarrow> steps a p c pre rest c' \<or> steps b p c pre rest c'"
  by (simp add: steps_def)

lemma steps_Grp:
  "steps (Grp k r) p c pre rest c' \<longleftrightarrow> (\<exists>c1. steps r p c pre rest c1 \<and> c' = (k, pre) # c1)"
proof
  assume "steps (Grp k r) p c pre rest c'"
  then obtain st1 c1 where "(st1, c1) \<in> set (ms r (p, pre @ rest) c)"
      "st1 = (last_char p pre, rest)"
      "c' = (k, take (length (pre @ rest) - length (snd st1)) (pre @ rest)) # c1"
    by (auto simp: steps_def)
  then show "\<exists>c1. steps r p c pre rest c1 \<and> c' = (k, pre) # c1"
    by (auto simp: steps_def)
next
  assume "\<exists>c1. steps r p c pre rest c1 \<and> c' = (k, pre) # c1"
  then obtain c1 where c1: "((last_char p pre, rest), c1) \<in> set (ms r (p, pre @ rest) c)"
      "c' = (k, pre) # c1"
    by (auto simp: steps_def)
  show "steps (Grp k r) p c pre rest c'"
    unfolding steps_def c1(2)
    by (simp add: image_iff) (rule bexI [OF _ c1(1)], simp)
qed

lemma steps_Bol: "steps Bol p c pre rest c' \<longleftrightarrow> pre = [] \<and> p = None \<and> c' = c"
  by (auto simp: steps_def last_char_def)

lemma steps_Eol:
  "steps Eol p c pre rest c' \<longleftrightarrow> pre = [] \<and> (rest = [] \<or> rest = [newline]) \<and> c' = c"
  by (auto simp: steps_def last_char_def)

lemma steps_WordB:
  "steps WordB p c pre rest c' \<longleftrightarrow>
     pre = [] \<and> word_before (p, rest) \<noteq> word_after (p, rest) \<and> c' = c"
  by (auto simp: steps_def last_char_def)

lemma steps_Look:
  "steps (Look r) p c pre rest c' \<longleftrightarrow> pre = [] \<and> ms r (p, rest) c \<noteq> [] \<and> c' = c"
  by (auto simp: steps_def last_char_def)

lemma steps_extends: "steps r p c pre rest c' \<Longrightarrow> extends (grps r) c c'"
  unfolding steps_def by (rule ms_extends)

lemma steps_no_groups: "steps r p c pre rest c' \<Longrightarrow> grps r = {} \<Longrightarrow> c' = c"
  using steps_extends [of r p c pre rest c'] by (simp add: extends_def)

text \<open>Stars and counted repetitions of one character class.\<close>

lemma star_iter_set: "set (star_iter False f n st c) = set (star_iter True f n st c)"
  by (induction n arbitrary: st c) (auto simp: Let_def)

lemma steps_LazyStar: "steps (LazyStar r) p c pre rest c' = steps (Star r) p c pre rest c'"
  by (simp add: steps_def star_iter_set)

lemma ms_Star_Chr_Nil: "ms (Star (Chr P)) (p, []) c = [((p, []), c)]"
  by simp

lemma ms_Star_Chr_Cons:
  "ms (Star (Chr P)) (p, x # xs) c =
     (if P x then ms (Star (Chr P)) (Some x, xs) c else []) @ [((p, x # xs), c)]"
  by (simp add: Let_def)

lemma steps_Star_Chr: "steps (Star (Chr P)) p c pre rest c' \<longleftrightarrow> list_all P pre \<and> c' = c"
proof (induction pre arbitrary: p)
  case Nil
  have "((p, rest), c) \<in> set (ms (Star (Chr P)) (p, rest) c)"
    by (cases rest) (simp_all add: Let_def)
  then have "steps (Star (Chr P)) p c [] rest c" by (simp add: steps_def last_char_def)
  moreover have "steps (Star (Chr P)) p c [] rest c' \<Longrightarrow> c' = c"
    by (erule steps_no_groups) simp
  ultimately show ?case by auto
next
  case (Cons x pre)
  have not_here: "(last_char p (x # pre), rest) \<noteq> (p, x # pre @ rest)"
  proof
    assume "(last_char p (x # pre), rest) = (p, x # pre @ rest)"
    then have "length rest = length (x # pre @ rest)" by simp
    then show False by simp
  qed
  have lc: "last_char p (x # pre) = last_char (Some x) pre"
    by (simp add: last_char_def)
  have "steps (Star (Chr P)) p c (x # pre) rest c' \<longleftrightarrow>
        P x \<and> steps (Star (Chr P)) (Some x) c pre rest c'"
    unfolding steps_def append_Cons ms_Star_Chr_Cons using not_here
    by (auto simp: lc simp del: ms.simps)
  then show ?case using Cons.IH by simp
qed

lemma steps_Seq_Chr:
  "steps (Seq (Chr P) b) p c pre rest c' \<longleftrightarrow>
     (\<exists>x xs. pre = x # xs \<and> P x \<and> steps b (Some x) c xs rest c')"
proof
  assume "steps (Seq (Chr P) b) p c pre rest c'"
  then obtain pre1 pre2 c1 where "pre = pre1 @ pre2" "steps (Chr P) p c pre1 (pre2 @ rest) c1"
      "steps b (last_char p pre1) c1 pre2 rest c'"
    unfolding steps_Seq by blast
  then show "\<exists>x xs. pre = x # xs \<and> P x \<and> steps b (Some x) c xs rest c'"
    by (auto simp: steps_Chr last_char_def)
next
  assume "\<exists>x xs. pre = x # xs \<and> P x \<and> steps b (Some x) c xs rest c'"
  then obtain x xs where x: "pre = x # xs" "P x" "steps b (Some x) c xs rest c'" by blast
  have "pre = [x] @ xs \<and> steps (Chr P) p c [x] (xs @ rest) c \<and>
      steps b (last_char p [x]) c xs rest c'"
    using x by (simp add: steps_Chr last_char_def)
  then show "steps (Seq (Chr P) b) p c pre rest c'"
    unfolding steps_Seq by blast
qed

lemma steps_rep_Chr:
  "steps (r_rep n (Chr P)) p c pre rest c' \<longleftrightarrow> length pre = n \<and> list_all P pre \<and> c' = c"
proof (induction n arbitrary: p pre)
  case 0
  then show ?case by (auto simp: steps_Eps)
next
  case (Suc n)
  show ?case by (cases pre) (auto simp: steps_Seq_Chr Suc.IH)
qed

lemma steps_plus_Chr:
  "steps (r_plus (Chr P)) p c pre rest c' \<longleftrightarrow> pre \<noteq> [] \<and> list_all P pre \<and> c' = c"
  by (cases pre) (auto simp: r_plus_def steps_Seq_Chr steps_Star_Chr)

lemma steps_lazy_plus_Chr:
  "steps (r_lazy_plus (Chr P)) p c pre rest c' \<longleftrightarrow> pre \<noteq> [] \<and> list_all P pre \<and> c' = c"
  by (cases pre) (auto simp: r_lazy_plus_def steps_Seq_Chr steps_LazyStar steps_Star_Chr)

lemma steps_opt:
  "steps (r_opt r) p c pre rest c' \<longleftrightarrow> steps r p c pre rest c' \<or> (pre = [] \<and> c' = c)"
  by (auto simp: r_opt_def steps_Alt steps_Eps)

lemma steps_seq_Nil: "steps (r_seq []) p c pre rest c' \<longleftrightarrow> pre = [] \<and> c' = c"
  by (simp add: r_seq_def steps_Eps)

lemma steps_seq_Cons:
  "steps (r_seq (r # rs)) p c pre rest c' \<longleftrightarrow>
     (\<exists>pre1 pre2 c1. pre = pre1 @ pre2 \<and> steps r p c pre1 (pre2 @ rest) c1 \<and>
        steps (r_seq rs) (last_char p pre1) c1 pre2 rest c')"
  by (simp add: r_seq_def steps_Seq)

lemma steps_lit: "steps (r_lit ch) p c pre rest c' \<longleftrightarrow> pre = [ch] \<and> c' = c"
  by (auto simp: r_lit_def steps_Chr)

section \<open>Properties of the address parser\<close>

lemmas steps_simps = steps_seq_Cons steps_seq_Nil steps_Grp steps_lit steps_Bol steps_Eol
  steps_plus_Chr steps_lazy_plus_Chr steps_Star_Chr steps_rep_Chr steps_opt steps_WordB steps_Look

lemma first_caps_Some: "first_caps rs = Some m \<Longrightarrow> \<exists>st. (st, m) \<in> set rs"
  by (cases rs) (auto simp: first_caps_def)

lemma first_caps_None: "first_caps rs = None \<longleftrightarrow> rs = []"
  by (cases rs) (auto simp: first_caps_def)

lemma re_match_Some:
  "re_match r s = Some m \<Longrightarrow> \<exists>pre rest. s = pre @ rest \<and> steps r None [] pre rest m"
proof -
  assume "re_match r s = Some m"
  then obtain st where "(st, m) \<in> set (ms r (None, s) [])"
    unfolding re_match_def by (auto dest: first_caps_Some)
  then show ?thesis unfolding in_ms_steps by blast
qed

lemma re_match_None: "re_match r (pre @ rest) = None \<Longrightarrow> \<not> steps r None [] pre rest m"
  by (auto simp: re_match_def first_caps_None steps_def)

lemma re_search_from_Some:
  "re_search_from r p s = Some m \<Longrightarrow> \<exists>q pre rest. steps r q [] pre rest m"
proof (induction s arbitrary: p)
  case Nil
  then obtain st where "(st, m) \<in> set (ms r (p, []) [])" by (auto dest: first_caps_Some)
  then show ?case unfolding in_ms_steps by blast
next
  case (Cons x xs)
  show ?case
  proof (cases "first_caps (ms r (p, x # xs) [])")
    case None
    with Cons show ?thesis by simp
  next
    case (Some c)
    with Cons.prems have "c = m" by simp
    with Some obtain st where "(st, m) \<in> set (ms r (p, x # xs) [])" by (auto dest: first_caps_Some)
    then show ?thesis unfolding in_ms_steps by blast
  qed
qed

lemma re_search_Some: "re_search r s = Some m \<Longrightarrow> \<exists>q pre rest. steps r q [] pre rest m"
  unfolding re_search_def by (rule re_search_from_Some)

lemma steps_zip_re: "steps zip_re p c pre rest c' \<longleftrightarrow> zip_text pre \<and> c' = c"
proof
  assume "steps zip_re p c pre rest c'"
  then obtain d t where d: "pre = d @ t" "length d = 5" "list_all is_digit d" "c' = c"
      "t = [] \<or> (\<exists>e. t = CHR ''-'' # e \<and> length e = 4 \<and> list_all is_digit e)"
    by (auto simp: zip_re_def steps_Seq steps_simps digit_def)
  then show "zip_text pre \<and> c' = c"
    by (auto simp: zip_text_def)
next
  assume a: "zip_text pre \<and> c' = c"
  define d where "d = take 5 pre"
  define t where "t = drop 5 pre"
  have "pre = d @ t" "length d = 5" "list_all is_digit d"
    using a by (auto simp: d_def t_def zip_text_def)
  moreover have "t = [] \<or> (\<exists>e. t = CHR ''-'' # e \<and> length e = 4 \<and> list_all is_digit e)"
  proof (cases t)
    case Nil
    then show ?thesis by simp
  next
    case (Cons x e)
    have "drop 6 pre = drop 1 t" by (simp add: t_def)
    then have "drop 6 pre = e" using Cons by simp
    with a Cons show ?thesis by (auto simp: zip_text_def t_def)
  qed
  ultimately show "steps zip_re p c pre rest c'"
    using a by (auto simp: zip_re_def steps_Seq steps_simps digit_def)
qed

lemma zip_text_strip: "zip_text g \<Longrightarrow> strip g \<noteq> []"
proof -
  assume z: "zip_text g"
  then obtain x xs where g: "g = x # xs" by (cases g) (auto simp: zip_text_def)
  with z have "is_digit x" by (auto simp: zip_text_def)
  then have "\<not> is_space x" by (rule digit_not_space)
  then show ?thesis using g by (intro strip_nonempty) auto
qed


lemma steps_pattern1_fwd:
  "steps pattern1 p c pre rest c' \<Longrightarrow>
     p = None \<and> (rest = [] \<or> rest = [newline]) \<and>
     (\<exists>g1 w1 g2 w2 g3 tail.
        pre = g1 @ CHR '','' # w1 @ g2 @ CHR '','' # w2 @ g3 @ tail \<and>
        g1 \<noteq> [] \<and> list_all (\<lambda>c. c \<noteq> newline) g1 \<and> list_all is_space w1 \<and>
        g2 \<noteq> [] \<and> list_all (\<lambda>c. c \<noteq> CHR '','') g2 \<and> list_all is_space w2 \<and>
        length g3 = 2 \<and> list_all is_alpha g3 \<and>
        ((tail = [] \<and> c' = (3, g3) # (2, g2) # (1, g1) # c) \<or>
         (\<exists>w3 g4. tail = w3 @ g4 \<and> w3 \<noteq> [] \<and> list_all is_space w3 \<and> zip_text g4 \<and>
            c' = (4, g4) # (3, g3) # (2, g2) # (1, g1) # c)))"
  apply (simp add: pattern1_def steps_simps steps_zip_re dot_def not_comma_def space_def letter_def)
  apply (elim conjE exE)
  apply (rule conjI, assumption)
  apply (rule_tac x = pre1 in exI, rule_tac x = pre1a in exI, rule_tac x = pre1b in exI,
      rule_tac x = pre1c in exI, rule_tac x = pre1d in exI, rule_tac x = pre2f in exI)
  apply simp
  apply blast
  done



lemma steps_words_re:
  "steps words_re p c pre rest c' \<Longrightarrow> c' = c \<and> pre \<noteq> [] \<and> is_alpha (hd pre)"
proof -
  assume a: "steps words_re p c pre rest c'"
  have "grps words_re = {}"
    by (simp add: words_re_def r_seq_def r_plus_def letter_def space_def)
  with a have "c' = c" by (rule steps_no_groups)
  moreover from a have "\<exists>x xs. pre = x # xs \<and> is_alpha x"
    by (auto simp: words_re_def r_seq_def letter_def steps_Seq_Chr)
  ultimately show ?thesis by auto
qed

lemma steps_pattern3_fwd:
  "steps pattern3 p c pre rest c' \<Longrightarrow>
     \<exists>g1 g2 g3 g4. c' = (4, g4) # (3, g3) # (2, g2) # (1, g1) # c \<and>
        g3 \<noteq> [] \<and> is_alpha (hd g3) \<and> zip_text g4"
  apply (simp add: pattern3_def steps_simps steps_zip_re dot_def not_comma_def space_def)
  apply (elim conjE exE)
  apply (drule steps_words_re)
  apply simp
  done

lemma steps_zip_pattern_fwd:
  "steps zip_pattern p c pre rest c' \<Longrightarrow> \<exists>g. c' = (1, g) # c \<and> zip_text g"
  apply (simp add: zip_pattern_def steps_simps steps_zip_re space_def)
  apply (elim conjE exE)
  apply simp
  done

lemma steps_state_pattern_fwd:
  "steps state_pattern p c pre rest c' \<Longrightarrow> \<exists>g. c' = (1, g) # c \<and> length g = 2"
  apply (simp add: state_pattern_def steps_simps space_def upper_letter_def)
  apply (elim conjE exE)
  apply simp
  done

lemma group_of_simps:
  "group_of ((k, v) # c) j = (if j = k then Some v else group_of c j)"
  "group_of [] j = None"
  by (simp_all add: group_of_def)

lemma pattern1_result_ok:
  assumes "re_match pattern1 a = Some m"
  shows "\<exists>r. pattern1_result m = Inr r \<and> none_or_nonempty (pa_state r) \<and>
           none_or_nonempty (pa_zip_code r)"
proof -
  from re_match_Some [OF assms] obtain pre rest where "steps pattern1 None [] pre rest m" by blast
  from steps_pattern1_fwd [OF this] obtain g1 g2 g3 where g: "length g3 = 2" "list_all is_alpha g3"
    and m: "m = [(3, g3), (2, g2), (1, g1)] \<or>
            (\<exists>g4. zip_text g4 \<and> m = [(4, g4), (3, g3), (2, g2), (1, g1)])"
    by blast
  from g(2) have "strip g3 = g3"
    by (intro strip_no_space) (auto simp: list_all_iff alpha_not_space)
  with g(1) have st: "upper (strip g3) \<noteq> []" by (auto simp: upper_eq_Nil_iff)
  from m show ?thesis
  proof
    assume "m = [(3, g3), (2, g2), (1, g1)]"
    then show ?thesis using st
      by (simp add: pattern1_result_def strip_group_def group_of_simps bind_def truthy_def
          none_or_nonempty_def)
  next
    assume "\<exists>g4. zip_text g4 \<and> m = [(4, g4), (3, g3), (2, g2), (1, g1)]"
    then obtain g4 where z: "zip_text g4" and m4: "m = [(4, g4), (3, g3), (2, g2), (1, g1)]"
      by blast
    from z have "g4 \<noteq> []" "strip g4 \<noteq> []" by (auto simp: zip_text_def zip_text_strip)
    then show ?thesis using st m4
      by (simp add: pattern1_result_def strip_group_def group_of_simps bind_def truthy_def
          none_or_nonempty_def)
  qed
qed

lemma pattern3_result_ok:
  assumes "re_match pattern3 a = Some m"
  shows "\<exists>r. pattern3_result m = Inr r \<and> none_or_nonempty (pa_state r) \<and>
           none_or_nonempty (pa_zip_code r)"
proof -
  from re_match_Some [OF assms] obtain pre rest where "steps pattern3 None [] pre rest m" by blast
  from steps_pattern3_fwd [OF this] obtain g1 g2 g3 g4 where
    m: "m = [(4, g4), (3, g3), (2, g2), (1, g1)]" and g3: "g3 \<noteq> []" "is_alpha (hd g3)"
    and z: "zip_text g4" by blast
  from g3 have "\<exists>c \<in> set g3. \<not> is_space c"
    by (cases g3) (auto simp: alpha_not_space)
  then have "strip g3 \<noteq> []" by (rule strip_nonempty)
  then have st: "upper (strip g3) \<noteq> []" by (simp add: upper_eq_Nil_iff)
  from z have "g4 \<noteq> []" "strip g4 \<noteq> []" by (auto simp: zip_text_def zip_text_strip)
  then show ?thesis using st m
    by (simp add: pattern3_result_def strip_group_def group_of_simps bind_def truthy_def
        none_or_nonempty_def split: option.split)
qed

lemma find_Some_set: "find P xs = Some x \<Longrightarrow> x \<in> set xs"
  by (induction xs) (auto split: if_splits)

lemma find_state_idx_Some:
  assumes "find_state_idx parts = Some i"
  shows "1 \<le> i \<and> i < length parts"
proof -
  from assms obtain p where
    "find (\<lambda>(i, p). length p = 2 \<and> isalpha p) (rev (drop 1 (enumerate 0 parts))) = Some (i, p)"
    by (auto simp: find_state_idx_def)
  then have "(i, p) \<in> set (rev (drop 1 (enumerate 0 parts)))"
    by (rule find_Some_set)
  then have "(i, p) \<in> set (drop 1 (enumerate 0 parts))" by simp
  then show ?thesis by (cases parts) (auto simp: in_set_enumerate_eq)
qed

lemma split_ws_nth_strip:
  "i < length (split_ws a) \<Longrightarrow> strip (split_ws a ! i) \<noteq> []"
proof -
  assume "i < length (split_ws a)"
  then have "split_ws a ! i \<in> set (split_ws a)" by simp
  from split_ws_parts [OF this] show ?thesis
    by (intro strip_nonempty) (cases "split_ws a ! i", auto)
qed

lemma pattern2_result_ok:
  assumes "pattern2_result a = Some res"
  shows "\<exists>r. res = Inr r \<and> none_or_nonempty (pa_state r) \<and> none_or_nonempty (pa_zip_code r)"
proof -
  from assms obtain i where i: "find_state_idx (split_ws a) = Some i" "i > 1"
    by (auto simp: pattern2_result_def Let_def split: if_splits option.splits)
  from find_state_idx_Some [OF i(1)] have len: "i < length (split_ws a)" by simp
  have st: "upper (strip (split_ws a ! i)) \<noteq> []"
    using split_ws_nth_strip [OF len] by (simp add: upper_eq_Nil_iff)
  have z: "Suc i < length (split_ws a) \<Longrightarrow> strip (split_ws a ! Suc i) \<noteq> []"
    by (rule split_ws_nth_strip)
  from assms i len st z show ?thesis
    by (auto simp: pattern2_result_def Let_def py_nth_def bind_def none_or_nonempty_def
        split: if_splits)
qed

lemma residual_result_ok:
  "\<exists>r. residual_result a = Inr r \<and> none_or_nonempty (pa_state r) \<and>
       none_or_nonempty (pa_zip_code r)"
proof -
  define zstage where "zstage =
    (case re_search zip_pattern a of
       None \<Rightarrow> Inr (None, a)
     | Some zm \<Rightarrow> bind (strip_group zm 1) (\<lambda>z.
         Inr (Some z, strip (re_sub_del zip_pattern a))))"
  define sstage where "sstage = (\<lambda>address1.
    (case re_search state_pattern address1 of
       None \<Rightarrow> Inr (None, address1)
     | Some sm \<Rightarrow> bind (case group_of sm 1 of None \<Rightarrow> Inl AttributeError
                          | Some g \<Rightarrow> Inr (upper g)) (\<lambda>sta.
         Inr (Some sta, strip (re_sub_del state_pattern address1)))))"
  define final where "final = (\<lambda>zip sta address2.
     if CHR '','' \<in> set address2 then
       (let parts = map strip (split_on CHR '','' address2) in
        if length parts \<ge> 2 then
          bind (py_nth parts 0) (\<lambda>p0.
          bind (py_nth parts (length parts - 1)) (\<lambda>pl.
            Inr \<lparr>pa_street = Some (strip p0), pa_city = Some (strip pl), pa_state = sta,
                 pa_zip_code = zip\<rparr>))
        else Inr \<lparr>pa_street = Some address2, pa_city = None, pa_state = sta,
                  pa_zip_code = zip\<rparr>)
     else Inr \<lparr>pa_street = Some address2, pa_city = None, pa_state = sta, pa_zip_code = zip\<rparr>)"
  have res: "residual_result a =
      bind zstage (\<lambda>(zip, address1). bind (sstage address1) (\<lambda>(sta, address2). final zip sta address2))"
    unfolding residual_result_def zstage_def sstage_def final_def by (rule refl)
  have Z: "\<exists>zip a1. zstage = Inr (zip, a1) \<and> none_or_nonempty zip"
  proof (cases "re_search zip_pattern a")
    case None
    then show ?thesis by (simp add: zstage_def none_or_nonempty_def)
  next
    case (Some zm)
    from re_search_Some [OF this] obtain q pre rest where "steps zip_pattern q [] pre rest zm"
      by blast
    from steps_zip_pattern_fwd [OF this] obtain g where "zm = [(1, g)]" "zip_text g" by blast
    then show ?thesis using Some zip_text_strip [of g]
      by (simp add: zstage_def strip_group_def group_of_simps bind_def none_or_nonempty_def)
  qed
  have S: "\<exists>sta a2. sstage a1 = Inr (sta, a2) \<and> none_or_nonempty sta" for a1
  proof (cases "re_search state_pattern a1")
    case None
    then show ?thesis by (simp add: sstage_def none_or_nonempty_def)
  next
    case (Some sm)
    from re_search_Some [OF this] obtain q pre rest where "steps state_pattern q [] pre rest sm"
      by blast
    from steps_state_pattern_fwd [OF this] obtain g where "sm = [(1, g)]" "length g = 2" by blast
    then have "upper g \<noteq> []" by (auto simp: upper_eq_Nil_iff)
    then show ?thesis using Some \<open>sm = [(1, g)]\<close>
      by (simp add: sstage_def group_of_simps bind_def none_or_nonempty_def)
  qed
  have F: "\<exists>r. final zip sta a2 = Inr r \<and> pa_state r = sta \<and> pa_zip_code r = zip" for zip sta a2
    by (simp add: final_def Let_def py_nth_def bind_def)
  from Z obtain zip a1 where z: "zstage = Inr (zip, a1)" "none_or_nonempty zip" by blast
  from S [of a1] obtain sta a2 where s: "sstage a1 = Inr (sta, a2)" "none_or_nonempty sta" by blast
  from F [of zip sta a2] obtain r where r: "final zip sta a2 = Inr r" "pa_state r = sta"
      "pa_zip_code r = zip" by blast
  have "residual_result a = Inr r" unfolding res by (simp add: z s r bind_def)
  with r s z show ?thesis by simp
qed

lemma parse_full_address_ok:
  "\<exists>r. parse_full_address x = Inr r \<and> none_or_nonempty (pa_state r) \<and>
       none_or_nonempty (pa_zip_code r)"
proof (cases x)
  case None
  then show ?thesis by (simp add: parse_full_address_def no_address_def none_or_nonempty_def)
next
  case (Some a)
  show ?thesis
  proof (cases "a = [] \<or> strip a = []")
    case True
    then show ?thesis using Some
      by (auto simp: parse_full_address_def no_address_def none_or_nonempty_def)
  next
    case False
    show ?thesis
    proof (cases "re_match pattern1 (strip a)")
      case m1: (Some m)
      from pattern1_result_ok [OF this] show ?thesis using Some False m1
        by (simp add: parse_full_address_def)
    next
      case n1: None
      show ?thesis
      proof (cases "if re_match pattern2 (strip a) = None then None else pattern2_result (strip a)")
        case r2: (Some res)
        then have "pattern2_result (strip a) = Some res" by (simp split: if_splits)
        from pattern2_result_ok [OF this] show ?thesis using Some False n1 r2
          by (simp add: parse_full_address_def)
      next
        case n2: None
        show ?thesis
        proof (cases "re_match pattern3 (strip a)")
          case m3: (Some m)
          from pattern3_result_ok [OF this] show ?thesis using Some False n1 n2 m3
            by (simp add: parse_full_address_def)
        next
          case n3: None
          from residual_result_ok [of "strip a"] show ?thesis using Some False n1 n2 n3
            by (simp add: parse_full_address_def)
        qed
      qed
    qed
  qed
qed



lemma space_not_comma: "is_space c \<Longrightarrow> c \<noteq> CHR '',''"
  by (auto simp: is_space_def code_def)

lemma alpha_not_comma: "is_alpha c \<Longrightarrow> c \<noteq> CHR '',''"
  by (auto simp: is_alpha_def is_upper_def is_lower_def code_def)

lemma digit_not_comma: "is_digit c \<Longrightarrow> c \<noteq> CHR '',''"
  by (auto simp: is_digit_def code_def)








text \<open>
  C6: the address parser is total. For every input, None and every string included, it
  returns a parsed address and raises nothing: no group it strips is missing and no index
  it reads is out of range. For None, the empty string and a string of whitespace only,
  all four fields of the result are None.
\<close>

theorem parse_full_address_total:
  "(\<exists>r. parse_full_address x = Inr r) \<and>
   parse_full_address None =
     Inr \<lparr>pa_street = None, pa_city = None, pa_state = None, pa_zip_code = None\<rparr> \<and>
   parse_full_address (Some []) =
     Inr \<lparr>pa_street = None, pa_city = None, pa_state = None, pa_zip_code = None\<rparr> \<and>
   (list_all is_space w \<longrightarrow>
      parse_full_address (Some w) =
        Inr \<lparr>pa_street = None, pa_city = None, pa_state = None, pa_zip_code = None\<rparr>)"
proof (intro conjI impI)
  show "\<exists>r. parse_full_address x = Inr r"
    using parse_full_address_ok [of x] by blast
  show "parse_full_address None =
      Inr \<lparr>pa_street = None, pa_city = None, pa_state = None, pa_zip_code = None\<rparr>"
    by (simp add: parse_full_address_def no_address_def)
  show "parse_full_address (Some []) =
      Inr \<lparr>pa_street = None, pa_city = None, pa_state = None, pa_zip_code = None\<rparr>"
    by (simp add: parse_full_address_def no_address_def)
  assume "list_all is_space w"
  then have "strip w = []" by (rule strip_of_spaces)
  then show "parse_full_address (Some w) =
      Inr \<lparr>pa_street = None, pa_city = None, pa_state = None, pa_zip_code = None\<rparr>"
    by (simp add: parse_full_address_def no_address_def)
qed

theorem parse_full_address_total_witness:
  "(\<exists>r. parse_full_address (Some ''@@ no address here !!'') = Inr r) \<and>
   parse_full_address (Some ''   '') =
     Inr \<lparr>pa_street = None, pa_city = None, pa_state = None, pa_zip_code = None\<rparr>"
  using parse_full_address_total [of "Some ''@@ no address here !!''" "''   ''"]
  by (simp add: is_space_def code_def)

text \<open>
  C7 as stated does not hold: the street is the empty string for the input 12345
  (the ZIP is cut off and nothing is left), and the city is the empty string for the
  input \<open>a, , NY\<close> (the first pattern matches with a city group of one blank).
\<close>

theorem parse_empty_field_counterexample:
  "parse_full_address (Some ''12345'') =
     Inr \<lparr>pa_street = Some [], pa_city = None, pa_state = None, pa_zip_code = Some ''12345''\<rparr> \<and>
   parse_full_address (Some ''a, , NY'') =
     Inr \<lparr>pa_street = Some ''a'', pa_city = Some [], pa_state = Some ''NY'', pa_zip_code = None\<rparr>"
  by code_simp

text \<open>
  C7, amended: for every input the state and the ZIP of the result are each None or a
  non-empty string. (Street and city can be empty strings, as the counterexample shows.)
\<close>

theorem parse_state_zip_never_empty:
  "parse_full_address x = Inr r \<Longrightarrow> pa_state r \<noteq> Some [] \<and> pa_zip_code r \<noteq> Some []"
  using parse_full_address_ok [of x] by (auto simp: none_or_nonempty_def)

theorem parse_state_zip_never_empty_witness:
  "parse_full_address (Some ''1 Elm St, Austin TX 78701'') =
     Inr \<lparr>pa_street = Some ''1 Elm St,'', pa_city = Some ''Austin'', pa_state = Some ''TX'',
          pa_zip_code = Some ''78701''\<rparr> \<and>
   pa_state \<lparr>pa_street = Some ''1 Elm St,'', pa_city = Some ''Austin'', pa_state = Some ''TX'',
          pa_zip_code = Some ''78701''\<rparr> \<noteq> Some [] \<and>
   pa_zip_code \<lparr>pa_street = Some ''1 Elm St,'', pa_city = Some ''Austin'', pa_state = Some ''TX'',
          pa_zip_code = Some ''78701''\<rparr> \<noteq> Some []"
proof -
  have e: "parse_full_address (Some ''1 Elm St, Austin TX 78701'') =
     Inr \<lparr>pa_street = Some ''1 Elm St,'', pa_city = Some ''Austin'', pa_state = Some ''TX'',
          pa_zip_code = Some ''78701''\<rparr>"
    by code_simp
  from parse_state_zip_never_empty [OF e] e show ?thesis by simp
qed



section \<open>Properties of the ZIP normalisation\<close>







section \<open>The retry loop and the counters\<close>

text \<open>The last attempt accepts every response; the loop with \<open>max_retries = 2\<close> unfolded.\<close>

lemma fetch_from_last:
  "fetch_from env (Suc 0) (Suc 0) =
     (case goto env (Suc 0) of Response status final_url \<Rightarrow> (True, [Suc 0])
        | NoResponse \<Rightarrow> (False, [Suc 0]) | Raises msg \<Rightarrow> (False, [Suc 0]))"
  by (simp add: max_retries_def numeral_2_eq_2 split: goto_outcome.split)

lemma fetch_loop_unfold:
  "fetch_loop env =
     (if proxy_ok env then (True, [])
      else let (ok, later) = fetch_from env (Suc 0) (Suc 0) in
           (case goto env 0 of
              Response status final_url \<Rightarrow>
                if 400 \<le> status then (ok, 0 # later)
                else if off_site final_url \<and>
                        (contains ''cloudflare'' (lower final_url) \<or>
                         contains ''challenge'' (lower final_url)) then (ok, 0 # later)
                else (True, [0])
            | NoResponse \<Rightarrow> (ok, 0 # later)
            | Raises msg \<Rightarrow> (ok, 0 # later)))"
  by (simp add: fetch_loop_def max_retries_def numeral_2_eq_2 USE_AWS_ROTATION_def
           split: goto_outcome.split)

text \<open>
  C4 as stated does not hold: the loop asks only whether the status is at least 400 and
  whether an attempt is left, so a 404 on the first direct load is followed by a second
  direct load. In the world below the proxy fails, the first load answers 404 and the
  page is loaded again on attempt 1.
\<close>

theorem retry_after_404_counterexample:
  "goto world_404 0 = Response 404 tps_page \<and> fetch_loop world_404 = (True, [0, 1])"
  by (simp add: fetch_loop_unfold fetch_from_last world_404_def goto_404_then_200_def
           max_retries_def)

text \<open>
  C4, amended: the page is loaded directly at most \<open>max_retries = 2\<close> times for a work
  item, and not at all when the proxy fetch succeeds. When the proxy fails, a first
  response with any status of 400 or more (404 as well as 403, 429, 502 and 503), a
  missing response and an exception of the load are each followed by exactly one further
  load; a first response with a status below 400 that stays on the site ends the loop;
  and a response to the second load is accepted whatever its status.
\<close>

theorem fetch_retry_policy:
  "length (snd (fetch_loop env)) \<le> max_retries \<and>
   (proxy_ok env \<longrightarrow> fetch_loop env = (True, [])) \<and>
   (\<not> proxy_ok env \<and> goto env 0 = Response status final_url \<and> 400 \<le> status
      \<longrightarrow> snd (fetch_loop env) = [0, 1]) \<and>
   (\<not> proxy_ok env \<and> goto env 0 = NoResponse \<longrightarrow> snd (fetch_loop env) = [0, 1]) \<and>
   (\<not> proxy_ok env \<and> goto env 0 = Raises msg \<longrightarrow> snd (fetch_loop env) = [0, 1]) \<and>
   (\<not> proxy_ok env \<and> goto env 0 = Response status final_url \<and> status < 400 \<and>
    \<not> off_site final_url \<longrightarrow> fetch_loop env = (True, [0])) \<and>
   (\<not> proxy_ok env \<and> goto env 0 = Response status final_url \<and> 400 \<le> status \<and>
    goto env 1 = Response status' final_url' \<longrightarrow> fetch_loop env = (True, [0, 1]))"
  by (simp add: fetch_loop_unfold fetch_from_last max_retries_def
           split: goto_outcome.split)

theorem fetch_retry_policy_witness:
  "\<not> proxy_ok world_404 \<and> goto world_404 0 = Response 404 tps_page \<and>
   goto world_404 1 = Response 200 tps_page \<and> (400::nat) \<le> 404 \<and>
   snd (fetch_loop world_404) = [0, 1] \<and> fetch_loop world_404 = (True, [0, 1]) \<and>
   length (snd (fetch_loop world_404)) \<le> max_retries"
  using fetch_retry_policy [of world_404 404 tps_page "''''" 200 tps_page]
  by (simp add: world_404_def goto_404_then_200_def max_retries_def)

text \<open>Every path of the task adds one to one counter.\<close>

lemma count_simps:
  "enriched (count_enriched st) = enriched st + 1" "failed (count_enriched st) = failed st"
  "skipped (count_enriched st) = skipped st" "saved_to_db (count_enriched st) = saved_to_db st"
  "enriched (count_failed st) = enriched st" "failed (count_failed st) = failed st + 1"
  "skipped (count_failed st) = skipped st" "saved_to_db (count_failed st) = saved_to_db st"
  "enriched (count_skipped st) = enriched st" "failed (count_skipped st) = failed st"
  "skipped (count_skipped st) = skipped st + 1" "saved_to_db (count_skipped st) = saved_to_db st"
  by (simp_all add: count_enriched_def count_failed_def count_skipped_def)

lemma fetch_and_extract_counts:
  "snd (fetch_and_extract parse_html env lead_data st address city state zip_code)
     \<in> {count_enriched st, count_failed st, count_skipped st}"
  by (simp add: fetch_and_extract_def Let_def split: sum.split)

lemma enrich_lead_task_counts:
  "snd (enrich_lead_task parse_html env lead_data st)
     \<in> {count_enriched st, count_failed st, count_skipped st}"
  using fetch_and_extract_counts
  by (simp add: enrich_lead_task_def Let_def split: sum.split prod.split)

lemma run_tasks_counts:
  "total_processed (snd (run_tasks parse_html items st)) =
     total_processed st + int (length items) \<and>
   saved_to_db (snd (run_tasks parse_html items st)) = saved_to_db st \<and>
   length (fst (run_tasks parse_html items st)) = length items"
proof (induction items arbitrary: st)
  case Nil
  show ?case by simp
next
  case (Cons it items)
  obtain result st1 where
    e: "enrich_lead_task parse_html (task_world it) (lead it) st = (result, st1)"
    by (cases "enrich_lead_task parse_html (task_world it) (lead it) st")
  have "st1 \<in> {count_enriched st, count_failed st, count_skipped st}"
    using enrich_lead_task_counts [of parse_html "task_world it" "lead it" st] e by simp
  then have s: "total_processed st1 = total_processed st + 1 \<and> saved_to_db st1 = saved_to_db st"
    by (auto simp: total_processed_def count_simps)
  show ?case using Cons.IH [of st1] e s
    by (simp add: split_def Let_def)
qed

lemma upload_counts:
  "total_processed (fst (upload lib results st table)) = total_processed st"
proof (induction results arbitrary: st table)
  case Nil
  show ?case by simp
next
  case (Cons r results)
  obtain result env where r: "r = (result, env)" by (cases r)
  obtain saved table1 where
    s: "save_lead_to_supabase lib env result table = (saved, table1)"
    by (cases "save_lead_to_supabase lib env result table")
  show ?case using r s
    by (simp add: Cons.IH) (simp add: total_processed_def)
qed

text \<open>
  C5: whatever path a work item takes, its task returns the counters with exactly one of
  enriched, failed and skipped one higher and nothing else changed. So the three
  counters of a run together grow by the number of its items, there is one result per
  item, and the counts reported at the end of a run add up to the number of items.
\<close>

theorem one_counter_per_item:
  "snd (enrich_lead_task parse_html env lead_data st) \<in>
     {st\<lparr>enriched := enriched st + 1\<rparr>, st\<lparr>failed := failed st + 1\<rparr>,
      st\<lparr>skipped := skipped st + 1\<rparr>} \<and>
   total_processed (snd (run_tasks parse_html items st)) =
     total_processed st + int (length items) \<and>
   length (fst (run_tasks parse_html items st)) = length items \<and>
   total_processed (fst (run_enrichment_pipeline parse_html lib items table)) =
     int (length items)"
proof -
  have 1: "snd (enrich_lead_task parse_html env lead_data st) \<in>
     {st\<lparr>enriched := enriched st + 1\<rparr>, st\<lparr>failed := failed st + 1\<rparr>,
      st\<lparr>skipped := skipped st + 1\<rparr>}"
    using enrich_lead_task_counts [of parse_html env lead_data st]
    by (simp add: count_enriched_def count_failed_def count_skipped_def)
  have "total_processed (fst (run_enrichment_pipeline parse_html lib items table)) =
     total_processed (snd (run_tasks parse_html items zero_stats))"
    by (simp add: run_enrichment_pipeline_def split_def Let_def upload_counts)
  then have 2: "total_processed (fst (run_enrichment_pipeline parse_html lib items table)) =
     int (length items)"
    using run_tasks_counts [of parse_html items zero_stats]
    by (simp add: total_processed_def zero_stats_def)
  from 1 2 run_tasks_counts [of parse_html items st] show ?thesis by simp
qed

theorem one_counter_per_item_witness:
  "snd (enrich_lead_task plain_text_parser world_404 combined_lead zero_stats) \<in>
     {\<lparr>enriched = 1, failed = 0, skipped = 0, saved_to_db = 0\<rparr>,
      \<lparr>enriched = 0, failed = 1, skipped = 0, saved_to_db = 0\<rparr>,
      \<lparr>enriched = 0, failed = 0, skipped = 1, saved_to_db = 0\<rparr>} \<and>
   total_processed (fst (run_enrichment_pipeline plain_text_parser plain_lib [blocked_item] []))
     = 1"
  using one_counter_per_item [of plain_text_parser world_404 combined_lead zero_stats
          "[blocked_item]" plain_lib "[]"]
  by (simp add: zero_stats_def)

section \<open>The order of the lookups\<close>

lemma scan_texts_first_found:
  "found_text t \<Longrightarrow> \<forall>u\<in>set pre. \<not> found_text u \<Longrightarrow> scan_texts v (pre @ t # rest) = Some t"
  by (induction pre arbitrary: v) simp_all

lemma found_text_truthy: "found_text t \<Longrightarrow> truthy (Some t)"
  by (simp add: found_text_def truthy_def)

lemma lookup_value_css: "truthy (css_text obs) \<Longrightarrow> lookup_value obs = css_text obs"
  by (simp add: lookup_value_def Let_def)

lemma lookup_value_xpath:
  "\<not> truthy (css_text obs) \<Longrightarrow> truthy (xpath_text obs) \<Longrightarrow> lookup_value obs = xpath_text obs"
  by (simp add: lookup_value_def Let_def)

lemma lookup_value_label:
  "\<not> truthy (css_text obs) \<Longrightarrow> \<not> truthy (xpath_text obs) \<Longrightarrow>
   label_texts obs = pre @ t # rest \<Longrightarrow> found_text t \<Longrightarrow> \<forall>u\<in>set pre. \<not> found_text u \<Longrightarrow>
   lookup_value obs = Some t"
  by (simp add: lookup_value_def Let_def scan_texts_first_found found_text_truthy)

lemma clean_value_sentinel:
  "lower (strip v) \<in> set [''n/a'', ''na'', ''not available'', ''none''] \<Longrightarrow>
   clean_value field_name (Some v) = None"
  by (auto simp: clean_value_def Let_def)

text \<open>
  C2: what the lookups of a field do. A lookup runs only while the value is falsy, that
  is, None or the empty string; the test against the placeholder words only decides
  whether a find is logged. So the first lookup that gives a non-empty text decides the
  field: the CSS text when there is one, else the XPath text, else the first text by the
  label that is no placeholder. When that text is a placeholder, the cleaning at the end
  drops it and the field is left out, whatever the later lookups would give.
\<close>

theorem first_nonempty_lookup_wins:
  "(truthy (css_text obs) \<longrightarrow>
      extract_field field_name obs = clean_value field_name (css_text obs)) \<and>
   (\<not> truthy (css_text obs) \<and> truthy (xpath_text obs) \<longrightarrow>
      extract_field field_name obs = clean_value field_name (xpath_text obs)) \<and>
   (\<not> truthy (css_text obs) \<and> \<not> truthy (xpath_text obs) \<and>
    label_texts obs = pre @ t # rest \<and> found_text t \<and> (\<forall>u\<in>set pre. \<not> found_text u) \<longrightarrow>
      extract_field field_name obs = clean_value field_name (Some t)) \<and>
   (css_text obs = Some v \<and> v \<noteq> [] \<and>
    lower (strip v) \<in> set [''n/a'', ''na'', ''not available'', ''none''] \<longrightarrow>
      extract_field field_name obs = None)"
proof (intro conjI impI)
  assume "truthy (css_text obs)"
  then show "extract_field field_name obs = clean_value field_name (css_text obs)"
    by (simp add: extract_field_def lookup_value_css)
next
  assume "\<not> truthy (css_text obs) \<and> truthy (xpath_text obs)"
  then show "extract_field field_name obs = clean_value field_name (xpath_text obs)"
    by (simp add: extract_field_def lookup_value_xpath)
next
  assume "\<not> truthy (css_text obs) \<and> \<not> truthy (xpath_text obs) \<and>
    label_texts obs = pre @ t # rest \<and> found_text t \<and> (\<forall>u\<in>set pre. \<not> found_text u)"
  then have "lookup_value obs = Some t"
    using lookup_value_label [of obs pre t rest] by blast
  then show "extract_field field_name obs = clean_value field_name (Some t)"
    by (simp add: extract_field_def)
next
  assume a: "css_text obs = Some v \<and> v \<noteq> [] \<and>
    lower (strip v) \<in> set [''n/a'', ''na'', ''not available'', ''none'']"
  then have "truthy (css_text obs)" by (simp add: truthy_def)
  then have "lookup_value obs = Some v" using a by (simp add: lookup_value_css)
  then show "extract_field field_name obs = None"
    using a clean_value_sentinel [of v field_name] by (simp add: extract_field_def)
qed

theorem first_nonempty_lookup_wins_witness:
  "extract_field ''estimated_value'' sentinel_obs = None \<and>
   extract_field ''estimated_value'' label_obs = Some ''350000'' \<and>
   extract_field ''year_built_enriched'' xpath_obs = Some ''1987''"
proof -
  have 1: "css_text sentinel_obs = Some ''N/A'' \<and> ''N/A'' \<noteq> [] \<and>
    lower (strip ''N/A'') \<in> set [''n/a'', ''na'', ''not available'', ''none'']"
    by code_simp
  have 2: "\<not> truthy (css_text label_obs) \<and> \<not> truthy (xpath_text label_obs) \<and>
    label_texts label_obs = [''N/A''] @ ''$350,000'' # [] \<and> found_text ''$350,000'' \<and>
    (\<forall>u\<in>set [''N/A'']. \<not> found_text u)"
    by code_simp
  have 3: "\<not> truthy (css_text xpath_obs) \<and> truthy (xpath_text xpath_obs)"
    by code_simp
  have 4: "clean_value ''estimated_value'' (Some ''$350,000'') = Some ''350000''"
    by code_simp
  have 5: "clean_value ''year_built_enriched'' (xpath_text xpath_obs) = Some ''1987''"
    by code_simp
  have a: "extract_field ''estimated_value'' sentinel_obs = None"
    using first_nonempty_lookup_wins
            [of sentinel_obs "''estimated_value''" "[]" "[]" "[]" "''N/A''"] 1
    by blast
  have b: "extract_field ''estimated_value'' label_obs = Some ''350000''"
    using first_nonempty_lookup_wins
            [of label_obs "''estimated_value''" "[''N/A'']" "''$350,000''" "[]" "[]"] 2 4
    by metis
  have c: "extract_field ''year_built_enriched'' xpath_obs = Some ''1987''"
    using first_nonempty_lookup_wins
            [of xpath_obs "''year_built_enriched''" "[]" "[]" "[]" "[]"] 3 5
    by metis
  from a b c show ?thesis by simp
qed

text \<open>
  C2 at a document where the CSS selector finds the placeholder N/A, the XPath finds
  nothing and the label search finds $350,000: the field is left out, although the third
  lookup alone would give 350000.
\<close>

theorem sentinel_blocks_fallback_counterexample:
  "css_text sentinel_obs = Some ''N/A'' \<and> xpath_text sentinel_obs = None \<and>
   label_texts sentinel_obs = [''$350,000''] \<and>
   extract_field ''estimated_value'' sentinel_obs = None \<and>
   extract_field ''estimated_value'' (sentinel_obs\<lparr>css_text := None\<rparr>) = Some ''350000''"
  by code_simp

section \<open>Saving a lead twice\<close>















section \<open>A blocked page in a run\<close>















end
